theory Spec2Isabelle
  imports Main "HOL-Library.AList"
begin

section \<open>Resource vectors\<close>

text \<open>
  The package \<^verbatim>\<open>resources\<close> is imported by \<^verbatim>\<open>pkg/cache/initializer.go\<close> but is not part
  of the sources at hand.  A resource is a table from dimension name to a signed quantity;
  it is kept as an association list, read through \<open>quantity\<close> (an absent dimension reads
  as zero).
\<close>

type_synonym Resource = "(string \<times> int) list"

definition quantity :: "Resource \<Rightarrow> string \<Rightarrow> int" where
  "quantity r k = (case map_of r k of None \<Rightarrow> 0 | Some v \<Rightarrow> v)"

text \<open>
  Modelled from the spec: \<^verbatim>\<open>resources.NewResource\<close> is missing from the sources; the spec
  (section 4.2, step 3) calls its result the zero vector, a table with no dimension.
\<close>

definition NewResource :: Resource where
  "NewResource = []"

text \<open>
  Modelled from the spec: \<^verbatim>\<open>Resource.AddTo\<close> is missing from the sources; the spec
  (section 3) gives \<^verbatim>\<open>add(a, b)\<close> as the elementwise sum over the union of dimensions.  The
  receiver is accumulated into, so the updated receiver is returned.  The argument is a
  pointer in the source; the spec says nothing about adding an unset vector, which is
  taken to add nothing (lemma \<open>check_guaranteed_set\<close> below shows that the validator
  never does so).
\<close>

fun AddTo :: "Resource \<Rightarrow> Resource option \<Rightarrow> Resource" where
  "AddTo r None = r"
| "AddTo r (Some a) =
     fold (\<lambda>k acc. AList.update k (quantity acc k + quantity a k) acc) (remdups (map fst a)) r"

text \<open>
  Modelled from the spec: \<^verbatim>\<open>resources.FitIn\<close> is missing from the sources; the spec
  (section 3) gives \<^verbatim>\<open>fitsWithin(capacity, demand)\<close> as: for every dimension present in
  either vector the demand is at most the capacity, an absent dimension counting as zero
  on both sides.
\<close>

definition FitIn :: "Resource \<Rightarrow> Resource \<Rightarrow> bool" where
  "FitIn larger smaller =
     list_all (\<lambda>k. quantity smaller k \<le> quantity larger k) (map fst larger @ map fst smaller)"

section \<open>Queues and the errors of the package\<close>

text \<open>
  \<^verbatim>\<open>QueueInfo\<close> is declared outside the sources at hand; the fields are the ones
  \<^verbatim>\<open>checkResourceConfigurationsForQueue\<close> reads and writes.  A \<^verbatim>\<open>nil\<close> resource pointer is
  \<open>None\<close>.  The children are kept in the order in which the source's \<^verbatim>\<open>range\<close> visits them
  (the spec, section 3: an ordered collection of children).  The parent is not a field:
  the source passes it as the second argument of the check.
\<close>

datatype QueueInfo =
  QueueInfo (Name: string) (guaranteedResource: "Resource option")
    (maxResource: "Resource option") (children: "QueueInfo list")

text \<open>
  The source builds its errors with \<^verbatim>\<open>fmt.Errorf\<close>.  Each call site is one constructor
  that carries the values printed into the message; the three messages of the check are
  the \<^verbatim>\<open>InvalidHierarchy\<close> errors of the spec.  \<open>External\<close> stands for an error returned by
  a function outside this file (configuration loading, partition construction, partition
  update) and \<open>NilDereference\<close> for the run-time panic of a field access through \<^verbatim>\<open>nil\<close>.
\<close>

datatype violation =
    GuaranteedSmallerThanChildren
  | MaxLargerThanParent
  | MaxSmallerThanGuaranteed

datatype error =
    AlreadyRegistered string nat
  | NoActivePartitions string
  | InvalidHierarchy violation string Resource Resource
  | External string
  | NilDereference

fun isInvalidHierarchy :: "error \<Rightarrow> bool" where
  "isInvalidHierarchy (InvalidHierarchy v n a b) = True"
| "isInvalidHierarchy e = False"

fun isStateConflict :: "error \<Rightarrow> bool" where
  "isStateConflict (AlreadyRegistered rm n) = True"
| "isStateConflict (NoActivePartitions rm) = True"
| "isStateConflict e = False"

section \<open>The hierarchy check\<close>

text \<open>Lines 181-184: the sum of the children's guaranteed resources, starting from a new
  resource and adding the children in the order of the loop.\<close>

definition sumGuaranteed :: "QueueInfo list \<Rightarrow> Resource" where
  "sumGuaranteed cs = fold (\<lambda>child sum. AddTo sum (guaranteedResource child)) cs NewResource"

text \<open>
  Lines 198-209, the part of the check on the maximum.  It runs on the queue as the first
  part left it, so the guaranteed resource is set; \<open>g\<close> is that resource.  Of the parent
  only \<^verbatim>\<open>maxResource\<close> is read.
\<close>

definition checkMax :: "string \<Rightarrow> Resource \<Rightarrow> Resource option \<Rightarrow> QueueInfo option \<Rightarrow> error option" where
  "checkMax name g mx parent =
     (case mx of
        None \<Rightarrow> None
      | Some m \<Rightarrow>
          (case (case parent of None \<Rightarrow> None | Some p \<Rightarrow> maxResource p) of
             Some pm \<Rightarrow>
               if \<not> FitIn pm m then Some (InvalidHierarchy MaxLargerThanParent name m pm)
               else if \<not> FitIn m g then Some (InvalidHierarchy MaxSmallerThanGuaranteed name m g)
               else None
           | None \<Rightarrow>
               if \<not> FitIn m g then Some (InvalidHierarchy MaxSmallerThanGuaranteed name m g)
               else None))"

text \<open>
  \<^verbatim>\<open>checkResourceConfigurationsForQueue\<close> (lines 171-212).  The source mutates the queue
  it is given and returns an error or \<^verbatim>\<open>nil\<close>; the model returns the error, or the queue
  as the check leaves it.  After an error the only caller drops the whole structure, so
  the partly updated queue is not returned.  The first part (lines 173-196) yields the
  guaranteed resource as it is set from then on and the checked children; the second
  part (lines 198-209) is \<open>checkMax\<close>.  \<open>checkChildren\<close> is the loop of lines 175-179: it
  stops at the first child that fails.  The children are checked against the current
  queue as parent; the check reads the parent's maximum only, which no call changes, so
  the queue is passed as it was on entry.
\<close>

fun checkResourceConfigurationsForQueue :: "QueueInfo \<Rightarrow> QueueInfo option \<Rightarrow> error + QueueInfo"
  and checkChildren :: "QueueInfo list \<Rightarrow> QueueInfo \<Rightarrow> error + QueueInfo list"
where
  "checkResourceConfigurationsForQueue (QueueInfo n g mx cs) parent =
     (case (if length cs > 0 then
              (case checkChildren cs (QueueInfo n g mx cs) of
                 Inl err \<Rightarrow> Inl err
               | Inr cs' \<Rightarrow>
                   (let sum = sumGuaranteed cs' in
                    case g of
                      Some gr \<Rightarrow>
                        if \<not> FitIn gr sum
                        then Inl (InvalidHierarchy GuaranteedSmallerThanChildren n gr sum)
                        else Inr (gr, cs')
                    | None \<Rightarrow> Inr (sum, cs')))
            else
              (case g of
                 None \<Rightarrow> Inr (NewResource, cs)
               | Some gr \<Rightarrow> Inr (gr, cs))) of
        Inl err \<Rightarrow> Inl err
      | Inr (g', cs') \<Rightarrow>
          (case checkMax n g' mx parent of
             Some err \<Rightarrow> Inl err
           | None \<Rightarrow> Inr (QueueInfo n (Some g') mx cs')))"
| "checkChildren [] cur = Inr []"
| "checkChildren (child # rest) cur =
     (case checkResourceConfigurationsForQueue child (Some cur) of
        Inl err \<Rightarrow> Inl err
      | Inr child' \<Rightarrow>
          (case checkChildren rest cur of
             Inl err \<Rightarrow> Inl err
           | Inr rest' \<Rightarrow> Inr (child' # rest')))"

section \<open>Partitions, the cluster and the configuration\<close>

text \<open>
  \<^verbatim>\<open>PartitionInfo\<close>, \<^verbatim>\<open>ClusterInfo\<close> and the package \<^verbatim>\<open>configs\<close> are declared outside the
  sources at hand.  The records hold what the file reads and writes and what the spec
  (section 3) lists: a partition has a name (\<open>pName\<close>, the field \<^verbatim>\<open>Name\<close>), a root queue,
  the identity of its resource manager and a lifecycle state.  The back-reference of a
  partition to its cluster is not kept.
\<close>

datatype partitionState = Active | PendingRemoval

record PartitionInfo =
  pName :: string
  Root :: QueueInfo
  RmID :: string
  state :: partitionState

text \<open>
  A partition entry of the configuration: its name (\<open>cName\<close>, the field \<^verbatim>\<open>Name\<close>) and its
  queue definitions, a tree with the optional guaranteed and maximum resources of each
  queue.
\<close>

datatype QueueConfig =
  QueueConfig (qName: string) (qGuaranteed: "Resource option") (qMax: "Resource option")
    (qQueues: "QueueConfig list")

record PartitionConfig =
  cName :: string
  Queues :: QueueConfig

record SchedulerConfig =
  Partitions :: "PartitionConfig list"

text \<open>
  \<^verbatim>\<open>clusterInfo.partitions\<close> is a Go map from name to partition pointer.  It is kept as
  an association list, read with \<open>map_of\<close>; a stored \<^verbatim>\<open>nil\<close> pointer is \<open>None\<close>.  The
  order of the list is the order in which \<^verbatim>\<open>range\<close> visits the map, which Go leaves open.
\<close>

record ClusterInfo =
  partitions :: "(string \<times> PartitionInfo option) list"
  policyGroup :: string

text \<open>
  What the two entry points can change: the cluster they are given, the global
  \<^verbatim>\<open>configs.ConfigContext\<close> (the configuration that is active for each policy group), and
  the outside world through calls of the configuration loader, which are logged with
  their argument in \<open>loaderCalls\<close>.
\<close>

record world =
  cluster :: ClusterInfo
  ConfigContext :: "string \<rightharpoonup> SchedulerConfig"
  loaderCalls :: "string list"

text \<open>
  Four functions that the file calls are outside the sources at hand and the spec leaves
  their results open; they are parameters of the model.  \<open>newPartitionInfo\<close> builds a
  partition from an entry or fails (its third argument, the cluster the partition will
  point back to, is left out with the back-reference).  \<open>updatePartitionDetails\<close> changes a
  partition in place and may fail: it yields the partition as it leaves it and the error
  if any.
\<close>

record collaborators =
  GetNormalizedPartitionName :: "string \<Rightarrow> string \<Rightarrow> string"
  SchedulerConfigLoader :: "string \<Rightarrow> error + SchedulerConfig"
  newPartitionInfo :: "PartitionConfig \<Rightarrow> string \<Rightarrow> error + PartitionInfo"
  updatePartitionDetails :: "PartitionInfo \<Rightarrow> PartitionConfig \<Rightarrow> PartitionInfo \<times> error option"

text \<open>
  Modelled from the spec: \<^verbatim>\<open>ClusterInfo.addPartition\<close> is missing from the sources; the
  spec (section 4.1) has it insert the partition into the registry under the name.  The
  pointer it is given is stored as it is.
\<close>

definition addPartition :: "ClusterInfo \<Rightarrow> string \<Rightarrow> PartitionInfo option \<Rightarrow> ClusterInfo" where
  "addPartition clusterInfo name info =
     clusterInfo\<lparr>partitions := AList.update name info (partitions clusterInfo)\<rparr>"

text \<open>
  Modelled from the spec: \<^verbatim>\<open>PartitionInfo.markPartitionForRemoval\<close> is missing from the
  sources; the spec (section 4.1, step 2) has it move the partition to PENDING_REMOVAL.
\<close>

definition markPartitionForRemoval :: "PartitionInfo \<Rightarrow> PartitionInfo" where
  "markPartitionForRemoval part = part\<lparr>state := PendingRemoval\<rparr>"

text \<open>
  Modelled from the spec: \<^verbatim>\<open>configs.ConfigContext.Set\<close> is missing from the sources; the
  spec (section 6) has it record the configuration as the active one of the policy
  group.
\<close>

definition ConfigContext_Set :: "world \<Rightarrow> string \<Rightarrow> SchedulerConfig \<Rightarrow> world" where
  "ConfigContext_Set w pg conf = w\<lparr>ConfigContext := (ConfigContext w)(pg \<mapsto> conf)\<rparr>"

section \<open>Building a checked partition\<close>

text \<open>\<^verbatim>\<open>newPartitionInfoInternal\<close> (lines 153-164).  The check updates the root queue of
  the new partition in place.\<close>

definition newPartitionInfoInternal ::
  "collaborators \<Rightarrow> PartitionConfig \<Rightarrow> string \<Rightarrow> error + PartitionInfo" where
  "newPartitionInfoInternal deps part rmID =
     (case newPartitionInfo deps part rmID of
        Inl err \<Rightarrow> Inl err
      | Inr newPart \<Rightarrow>
          (case checkResourceConfigurationsForQueue (Root newPart) None of
             Inl err \<Rightarrow> Inl err
           | Inr root' \<Rightarrow> Inr (newPart\<lparr>Root := root'\<rparr>)))"

section \<open>Bootstrap\<close>

text \<open>
  The loop of \<^verbatim>\<open>createPartitionInfos\<close> (lines 39-50) over the entries that are left, with
  the cluster and \<^verbatim>\<open>updatedPartitions\<close> as they stand.  A result is the returned slice,
  the returned error (\<open>None\<close> for \<^verbatim>\<open>nil\<close>) and the cluster as the call leaves it.  The
  slices hold pointers in the source; the model appends the partition as it is at that
  moment.
\<close>

fun createLoop ::
  "collaborators \<Rightarrow> string \<Rightarrow> PartitionConfig list \<Rightarrow> ClusterInfo \<Rightarrow> PartitionInfo list \<Rightarrow>
   (PartitionInfo list \<times> error option) \<times> ClusterInfo" where
  "createLoop deps rmID [] clusterInfo updatedPartitions =
     ((updatedPartitions, None), clusterInfo)"
| "createLoop deps rmID (p # ps) clusterInfo updatedPartitions =
     (let partitionName = GetNormalizedPartitionName deps (cName p) rmID;
          p' = p\<lparr>cName := partitionName\<rparr>
      in case newPartitionInfoInternal deps p' rmID of
           Inl err \<Rightarrow> (([], Some err), clusterInfo)
         | Inr newPart \<Rightarrow>
             createLoop deps rmID ps (addPartition clusterInfo partitionName (Some newPart))
               (updatedPartitions @ [newPart]))"

definition createPartitionInfos ::
  "collaborators \<Rightarrow> ClusterInfo \<Rightarrow> SchedulerConfig \<Rightarrow> string \<Rightarrow>
   (PartitionInfo list \<times> error option) \<times> ClusterInfo" where
  "createPartitionInfos deps clusterInfo conf rmID =
     createLoop deps rmID (Partitions conf) clusterInfo []"

text \<open>\<^verbatim>\<open>SetClusterInfoFromConfigFile\<close> (lines 58-79).\<close>

definition SetClusterInfoFromConfigFile ::
  "collaborators \<Rightarrow> world \<Rightarrow> string \<Rightarrow> string \<Rightarrow> (PartitionInfo list \<times> error option) \<times> world" where
  "SetClusterInfoFromConfigFile deps w rmID policyGroup' =
     (if length (partitions (cluster w)) > 0
      then (([], Some (AlreadyRegistered rmID (length (partitions (cluster w))))), w)
      else
        (let w1 = w\<lparr>loaderCalls := loaderCalls w @ [policyGroup']\<rparr>
         in case SchedulerConfigLoader deps policyGroup' of
              Inl err \<Rightarrow> (([], Some err), w1)
            | Inr conf \<Rightarrow>
                (let w2 = ConfigContext_Set w1 policyGroup' conf
                 in case createPartitionInfos deps (cluster w2) conf rmID of
                      ((updatedPartitions, Some err), clusterInfo') \<Rightarrow>
                        (([], Some err), w2\<lparr>cluster := clusterInfo'\<rparr>)
                    | ((updatedPartitions, None), clusterInfo') \<Rightarrow>
                        ((updatedPartitions, None), w2\<lparr>cluster := clusterInfo'\<rparr>))))"

section \<open>Incremental update\<close>

text \<open>
  The first loop of \<^verbatim>\<open>UpdateClusterInfoFromConfigFile\<close> (lines 106-135) over the entries
  that are left, with the cluster, \<^verbatim>\<open>updatedPartitions\<close> and \<^verbatim>\<open>visited\<close> as they stand.
  An error ends the function, so the loop yields the error or the two variables, and in
  both cases the cluster as it is then.  Line 133 appends the pointer to the partition;
  the model appends the partition as it is at that moment, so a later change of the same
  partition in the same call (a second entry with the same name, or the marking of the
  second loop) does not show in the list the model returns.  The general statements
  below say of \<^verbatim>\<open>updatedPartitions\<close> only that it is empty after an error and how long
  it is; in the evaluated examples every partition is appended once and not changed
  afterwards.  In the branch for a new partition the source
  calls \<^verbatim>\<open>addPartition\<close> (line 127) before it looks at the error (line 128): after a
  failure the pointer it stores is \<^verbatim>\<open>nil\<close>.  In the branch for a known partition the
  method \<^verbatim>\<open>updatePartitionDetails\<close> is called on the stored pointer, which panics when the
  pointer is \<^verbatim>\<open>nil\<close>; otherwise the partition is changed in place, under its key.
\<close>

fun updateLoop ::
  "collaborators \<Rightarrow> string \<Rightarrow> PartitionConfig list \<Rightarrow> ClusterInfo \<Rightarrow> PartitionInfo list \<Rightarrow>
   (string \<Rightarrow> bool) \<Rightarrow> (error + PartitionInfo list \<times> (string \<Rightarrow> bool)) \<times> ClusterInfo" where
  "updateLoop deps rmID [] clusterInfo updatedPartitions visited =
     (Inr (updatedPartitions, visited), clusterInfo)"
| "updateLoop deps rmID (p # ps) clusterInfo updatedPartitions visited =
     (let partitionName = GetNormalizedPartitionName deps (cName p) rmID;
          p' = p\<lparr>cName := partitionName\<rparr>
      in case map_of (partitions clusterInfo) (cName p') of
           Some part \<Rightarrow>
             (case newPartitionInfoInternal deps p' rmID of
                Inl err \<Rightarrow> (Inl err, clusterInfo)
              | Inr candidate \<Rightarrow>
                  (case part of
                     None \<Rightarrow> (Inl NilDereference, clusterInfo)
                   | Some partInfo \<Rightarrow>
                       (case updatePartitionDetails deps partInfo p' of
                          (partInfo', Some err) \<Rightarrow>
                            (Inl err,
                             clusterInfo\<lparr>partitions :=
                               AList.update (cName p') (Some partInfo') (partitions clusterInfo)\<rparr>)
                        | (partInfo', None) \<Rightarrow>
                            updateLoop deps rmID ps
                              (clusterInfo\<lparr>partitions :=
                                 AList.update (cName p') (Some partInfo') (partitions clusterInfo)\<rparr>)
                              (updatedPartitions @ [partInfo'])
                              (visited(cName p' := True)))))
         | None \<Rightarrow>
             (case newPartitionInfoInternal deps p' rmID of
                Inl err \<Rightarrow> (Inl err, addPartition clusterInfo partitionName None)
              | Inr part \<Rightarrow>
                  updateLoop deps rmID ps (addPartition clusterInfo partitionName (Some part))
                    (updatedPartitions @ [part])
                    (visited(cName p' := True))))"

text \<open>
  The second loop (lines 139-146) over the entries of the map that are left, with
  \<^verbatim>\<open>deletedPartitions\<close> as it stands.  It yields the entries as the loop leaves them and
  the final \<^verbatim>\<open>deletedPartitions\<close>.  Go leaves the order of \<^verbatim>\<open>range\<close> over a map open; the
  model walks the list in its order, which is one of the possible orders, and the
  statements below speak of membership in \<^verbatim>\<open>deletedPartitions\<close> only, never of its order.  Reading \<^verbatim>\<open>part.Name\<close> through a stored \<^verbatim>\<open>nil\<close> panics; the
  entries marked before that stay marked.
\<close>

fun markLoop ::
  "(string \<Rightarrow> bool) \<Rightarrow> (string \<times> PartitionInfo option) list \<Rightarrow> PartitionInfo list \<Rightarrow>
   (error + PartitionInfo list) \<times> (string \<times> PartitionInfo option) list" where
  "markLoop visited [] deletedPartitions = (Inr deletedPartitions, [])"
| "markLoop visited ((k, None) # rest) deletedPartitions =
     (Inl NilDereference, (k, None) # rest)"
| "markLoop visited ((k, Some part) # rest) deletedPartitions =
     (if \<not> visited (pName part)
      then (case markLoop visited rest (deletedPartitions @ [markPartitionForRemoval part]) of
              (r, rest') \<Rightarrow> (r, (k, Some (markPartitionForRemoval part)) # rest'))
      else (case markLoop visited rest deletedPartitions of
              (r, rest') \<Rightarrow> (r, (k, Some part) # rest')))"

text \<open>
  \<^verbatim>\<open>UpdateClusterInfoFromConfigFile\<close> (lines 86-149).  A result is the two returned
  slices, the returned error and the world as the call leaves it.  A panic returns
  nothing; it is shown as the error \<open>NilDereference\<close> with empty slices.
\<close>

definition UpdateClusterInfoFromConfigFile ::
  "collaborators \<Rightarrow> world \<Rightarrow> string \<Rightarrow>
   (PartitionInfo list \<times> PartitionInfo list \<times> error option) \<times> world" where
  "UpdateClusterInfoFromConfigFile deps w rmID =
     (if length (partitions (cluster w)) = 0
      then (([], [], Some (NoActivePartitions rmID)), w)
      else
        (let w1 = w\<lparr>loaderCalls := loaderCalls w @ [policyGroup (cluster w)]\<rparr>
         in case SchedulerConfigLoader deps (policyGroup (cluster w)) of
              Inl err \<Rightarrow> (([], [], Some err), w1)
            | Inr conf \<Rightarrow>
                (let w2 = ConfigContext_Set w1 (policyGroup (cluster w)) conf
                 in case updateLoop deps rmID (Partitions conf) (cluster w2) [] (\<lambda>k. False) of
                      (Inl err, clusterInfo') \<Rightarrow> (([], [], Some err), w2\<lparr>cluster := clusterInfo'\<rparr>)
                    | (Inr (updatedPartitions, visited), clusterInfo') \<Rightarrow>
                        (case markLoop visited (partitions clusterInfo') [] of
                           (Inl err, parts) \<Rightarrow>
                             (([], [], Some err),
                              w2\<lparr>cluster := clusterInfo'\<lparr>partitions := parts\<rparr>\<rparr>)
                         | (Inr deletedPartitions, parts) \<Rightarrow>
                             ((updatedPartitions, deletedPartitions, None),
                              w2\<lparr>cluster := clusterInfo'\<lparr>partitions := parts\<rparr>\<rparr>)))))"

section \<open>Properties of a checked queue tree\<close>

text \<open>
  The statements about a checked tree do not use the loop of lines 181-184.  They speak
  of the total of a dimension over the guaranteed resources of all the queues of a list
  (an unset resource counts as zero), and of the dimensions that occur in those
  resources.
\<close>

definition guaranteedTotal :: "QueueInfo list \<Rightarrow> string \<Rightarrow> int" where
  "guaranteedTotal cs k =
     sum_list (map (\<lambda>c. case guaranteedResource c of None \<Rightarrow> 0 | Some g \<Rightarrow> quantity g k) cs)"

definition guaranteedDimensions :: "QueueInfo list \<Rightarrow> string list" where
  "guaranteedDimensions cs =
     concat (map (\<lambda>c. case guaranteedResource c of None \<Rightarrow> [] | Some g \<Rightarrow> map fst g) cs)"

text \<open>
  The guarantee-sum property of a whole tree: at every queue that has children, the
  guaranteed resource is set and, in every dimension that occurs in it or in a child,
  the total over all the children is at most the queue's own quantity.  (In every other
  dimension both sides are zero, see \<open>total_fits_iff\<close>.)
\<close>

fun guaranteeSumHolds :: "QueueInfo \<Rightarrow> bool" where
  "guaranteeSumHolds (QueueInfo n g mx cs) =
     ((cs \<noteq> [] \<longrightarrow>
         (case g of
            None \<Rightarrow> False
          | Some gr \<Rightarrow>
              list_all (\<lambda>k. guaranteedTotal cs k \<le> quantity gr k)
                (map fst gr @ guaranteedDimensions cs)))
      \<and> list_all guaranteeSumHolds cs)"

text \<open>
  How a checked tree \<open>q'\<close> relates to the tree \<open>q\<close> it was checked from, at every queue:
  name and maximum are kept, a declared guaranteed resource is kept, and an unset one has
  become, at a queue with children, a resource whose quantity in every dimension is the
  total over all the checked children, and at a leaf the new (empty) resource.
\<close>

fun guaranteeInferred :: "QueueInfo \<Rightarrow> QueueInfo \<Rightarrow> bool" where
  "guaranteeInferred (QueueInfo n g mx cs) q' =
     (Name q' = n \<and> maxResource q' = mx \<and>
      (case g of
         Some gr \<Rightarrow> guaranteedResource q' = Some gr
       | None \<Rightarrow>
           (case guaranteedResource q' of
              None \<Rightarrow> False
            | Some gr' \<Rightarrow>
                if cs = [] then gr' = NewResource
                else list_all (\<lambda>k. quantity gr' k = guaranteedTotal (children q') k)
                       (map fst gr' @ guaranteedDimensions (children q')))) \<and>
      list_all2 guaranteeInferred cs (children q'))"

section \<open>A concrete setting for the examples\<close>

text \<open>
  Modelled from the spec: the queue tree of an entry is built from its queue definitions
  (section 4.1); every queue takes the name and the optional resources of its
  definition.
\<close>

fun buildQueue :: "QueueConfig \<Rightarrow> QueueInfo" where
  "buildQueue (QueueConfig n g mx qs) = QueueInfo n g mx (map buildQueue qs)"

text \<open>
  Modelled from the spec: the four functions outside the sources, in the spec's words.
  The normalized name combines the configured name with the resource manager identity
  (section 4.1); a new partition takes the name of its entry, the queue tree built from
  the entry, the resource manager identity, and is active (sections 3 and 4.1); an update
  replaces the queue tree of the partition (section 4.1); the loader returns the
  configuration \<open>conf\<close>.
\<close>

definition exampleDeps :: "SchedulerConfig \<Rightarrow> collaborators" where
  "exampleDeps conf =
     \<lparr>GetNormalizedPartitionName = (\<lambda>name rmID. ''['' @ rmID @ '']'' @ name),
      SchedulerConfigLoader = (\<lambda>pg. Inr conf),
      newPartitionInfo =
        (\<lambda>p rmID. Inr \<lparr>pName = cName p, Root = buildQueue (Queues p), RmID = rmID, state = Active\<rparr>),
      updatePartitionDetails = (\<lambda>part p. (part\<lparr>Root := buildQueue (Queues p)\<rparr>, None))\<rparr>"

text \<open>
  The first concrete scenario of the spec (section 8): a root with guaranteed memory 100
  and the children \<open>a\<close> (40) and \<open>b\<close> (50), which is valid (\<open>goodQueues\<close>), and its variant
  with \<open>b\<close> at 70, which is not (\<open>badQueues\<close>).  \<open>cappedQueues\<close> is the variant with a
  maximum of 1000 at the root.
\<close>

definition goodQueues :: QueueConfig where
  "goodQueues =
     QueueConfig ''root'' (Some [(''memory'', 100)]) None
       [QueueConfig ''a'' (Some [(''memory'', 40)]) None [],
        QueueConfig ''b'' (Some [(''memory'', 50)]) None []]"

definition badQueues :: QueueConfig where
  "badQueues =
     QueueConfig ''root'' (Some [(''memory'', 100)]) None
       [QueueConfig ''a'' (Some [(''memory'', 40)]) None [],
        QueueConfig ''b'' (Some [(''memory'', 70)]) None []]"

definition cappedQueues :: QueueConfig where
  "cappedQueues =
     QueueConfig ''root'' (Some [(''memory'', 100)]) (Some [(''memory'', 1000)])
       [QueueConfig ''a'' (Some [(''memory'', 40)]) None [],
        QueueConfig ''b'' (Some [(''memory'', 70)]) None []]"


text \<open>Trees with three children that all have a guaranteed resource: a declared root
  that holds their total (\<open>threeQueues\<close>), one that does not (\<open>overQueues\<close>), and a root
  without a guaranteed resource, with a fourth child that declares nothing
  (\<open>inferThreeQueues\<close>).\<close>

definition threeQueues :: QueueConfig where
  "threeQueues =
     QueueConfig ''root'' (Some [(''memory'', 100)]) None
       [QueueConfig ''a'' (Some [(''memory'', 40)]) None [],
        QueueConfig ''b'' (Some [(''memory'', 50)]) None [],
        QueueConfig ''c'' (Some [(''memory'', 10)]) None []]"

definition overQueues :: QueueConfig where
  "overQueues =
     QueueConfig ''root'' (Some [(''memory'', 100)]) None
       [QueueConfig ''a'' (Some [(''memory'', 40)]) None [],
        QueueConfig ''b'' (Some [(''memory'', 50)]) None [],
        QueueConfig ''c'' (Some [(''memory'', 70)]) None []]"

definition inferThreeQueues :: QueueConfig where
  "inferThreeQueues =
     QueueConfig ''root'' None None
       [QueueConfig ''a'' (Some [(''cpu'', 2)]) None [],
        QueueConfig ''b'' (Some [(''cpu'', 3)]) None [],
        QueueConfig ''c'' (Some [(''cpu'', 4), (''memory'', 1)]) None [],
        QueueConfig ''d'' None None []]"

text \<open>A root with a maximum of 100 and a child with a maximum of 200.\<close>

definition nestedQueues :: QueueConfig where
  "nestedQueues =
     QueueConfig ''root'' None (Some [(''memory'', 100)])
       [QueueConfig ''a'' None (Some [(''memory'', 200)]) []]"

definition examplePartition :: "string \<Rightarrow> QueueConfig \<Rightarrow> PartitionInfo" where
  "examplePartition name qs = \<lparr>pName = name, Root = buildQueue qs, RmID = ''rm'', state = Active\<rparr>"

definition exampleWorld :: "(string \<times> PartitionInfo option) list \<Rightarrow> world" where
  "exampleWorld parts =
     \<lparr>cluster = \<lparr>partitions = parts, policyGroup = ''queues''\<rparr>,
      ConfigContext = Map.empty, loaderCalls = []\<rparr>"

definition exampleEntry :: "string \<Rightarrow> QueueConfig \<Rightarrow> PartitionConfig" where
  "exampleEntry name qs = \<lparr>cName = name, Queues = qs\<rparr>"

section \<open>Notions used in the statements about the two entry points\<close>

text \<open>The name under which an entry is handled (lines 40 and 107), and the entry as it
  is used after the assignment to \<^verbatim>\<open>p.Name\<close> (lines 41 and 108).\<close>

definition normalizedName :: "collaborators \<Rightarrow> string \<Rightarrow> PartitionConfig \<Rightarrow> string" where
  "normalizedName deps rmID p = GetNormalizedPartitionName deps (cName p) rmID"

definition normalized :: "collaborators \<Rightarrow> string \<Rightarrow> PartitionConfig \<Rightarrow> PartitionConfig" where
  "normalized deps rmID p = p\<lparr>cName := normalizedName deps rmID p\<rparr>"

text \<open>A name is committed in a cluster when the map holds a partition (not \<^verbatim>\<open>nil\<close>) under
  it.\<close>

definition committed :: "ClusterInfo \<Rightarrow> string \<Rightarrow> bool" where
  "committed clusterInfo k =
     (case map_of (partitions clusterInfo) k of Some (Some part) \<Rightarrow> True | _ \<Rightarrow> False)"

text \<open>Partitions, the error of the second scenario, and configurations for the examples.\<close>

definition defaultPart :: PartitionInfo where
  "defaultPart = examplePartition ''[rm]default'' goodQueues"

definition oldPart :: PartitionInfo where
  "oldPart = examplePartition ''[rm]old'' goodQueues"

definition extraPart :: PartitionInfo where
  "extraPart = examplePartition ''[rm]extra'' goodQueues"

definition sumError :: error where
  "sumError =
     InvalidHierarchy GuaranteedSmallerThanChildren ''root'' [(''memory'', 100)] [(''memory'', 110)]"

definition confNewBad :: SchedulerConfig where
  "confNewBad = \<lparr>Partitions = [exampleEntry ''extra'' badQueues]\<rparr>"

definition confNewThenBad :: SchedulerConfig where
  "confNewThenBad =
     \<lparr>Partitions = [exampleEntry ''extra'' goodQueues, exampleEntry ''default'' badQueues]\<rparr>"

definition confGoodThenBad :: SchedulerConfig where
  "confGoodThenBad =
     \<lparr>Partitions = [exampleEntry ''default'' goodQueues, exampleEntry ''extra'' badQueues]\<rparr>"

definition confDefault :: SchedulerConfig where
  "confDefault = \<lparr>Partitions = [exampleEntry ''default'' goodQueues]\<rparr>"

definition confDefaultBad :: SchedulerConfig where
  "confDefaultBad = \<lparr>Partitions = [exampleEntry ''default'' badQueues]\<rparr>"






section \<open>The resource operations\<close>

lemma quantity_update:
  "quantity (AList.update k v r) k' = (if k' = k then v else quantity r k')"
  by (simp add: quantity_def update_conv')

lemma quantity_fold_add:
  "distinct ks \<Longrightarrow>
   quantity (fold (\<lambda>k acc. AList.update k (quantity acc k + quantity a k) acc) ks r) k' =
     (if k' \<in> set ks then quantity r k' + quantity a k' else quantity r k')"
  by (induction ks arbitrary: r) (auto simp: quantity_update)

lemma quantity_absent: "k \<notin> fst ` set a \<Longrightarrow> quantity a k = 0"
proof -
  assume "k \<notin> fst ` set a"
  then have "map_of a k = None" by (simp add: map_of_eq_None_iff)
  then show ?thesis by (simp add: quantity_def)
qed

text \<open>\<open>AddTo\<close> is the elementwise sum, and \<open>sumGuaranteed\<close> adds up every dimension over
  the children.\<close>

lemma quantity_AddTo:
  "quantity (AddTo r (Some a)) k = quantity r k + quantity a k"
  by (simp add: quantity_fold_add quantity_absent)

lemma quantity_fold_AddTo:
  "quantity (fold (\<lambda>child sum. AddTo sum (guaranteedResource child)) cs r) k =
     quantity r k +
     sum_list (map (\<lambda>c. case guaranteedResource c of None \<Rightarrow> 0 | Some g \<Rightarrow> quantity g k) cs)"
proof (induction cs arbitrary: r)
  case Nil
  show ?case by simp
next
  case (Cons c cs)
  show ?case
  proof (cases "guaranteedResource c")
    case None
    with Cons show ?thesis by simp
  next
    case (Some g)
    with Cons show ?thesis by (simp add: quantity_AddTo del: AddTo.simps)
  qed
qed

lemma quantity_sumGuaranteed:
  "quantity (sumGuaranteed cs) k =
     sum_list (map (\<lambda>c. case guaranteedResource c of None \<Rightarrow> 0 | Some g \<Rightarrow> quantity g k) cs)"
  by (simp add: sumGuaranteed_def quantity_fold_AddTo) (simp add: quantity_def NewResource_def)

lemma FitIn_iff:
  "FitIn larger smaller \<longleftrightarrow> (\<forall>k. quantity smaller k \<le> quantity larger k)"
proof
  assume fit: "FitIn larger smaller"
  show "\<forall>k. quantity smaller k \<le> quantity larger k"
  proof
    fix k
    show "quantity smaller k \<le> quantity larger k"
    proof (cases "k \<in> fst ` set larger \<union> fst ` set smaller")
      case True
      with fit show ?thesis by (auto simp: FitIn_def list_all_iff)
    next
      case False
      then show ?thesis by (simp add: quantity_absent)
    qed
  qed
next
  assume "\<forall>k. quantity smaller k \<le> quantity larger k"
  then show "FitIn larger smaller" by (simp add: FitIn_def list_all_iff)
qed

lemma FitIn_refl: "FitIn r r"
  by (simp add: FitIn_iff)

text \<open>The total over a list of queues, and the sum that the loop of lines 181-184
  computes.\<close>

lemma guaranteedTotal_absent:
  "k \<notin> set (guaranteedDimensions cs) \<Longrightarrow> guaranteedTotal cs k = 0"
proof (induction cs)
  case Nil
  show ?case by (simp add: guaranteedTotal_def)
next
  case (Cons c cs)
  then have rest: "guaranteedTotal cs k = 0"
    by (simp add: guaranteedDimensions_def)
  have "(case guaranteedResource c of None \<Rightarrow> 0 | Some g \<Rightarrow> quantity g k) = 0"
  proof (cases "guaranteedResource c")
    case None
    then show ?thesis by simp
  next
    case (Some g)
    with Cons.prems have "k \<notin> fst ` set g"
      by (simp add: guaranteedDimensions_def)
    with Some show ?thesis by (simp add: quantity_absent)
  qed
  with rest show ?case by (simp add: guaranteedTotal_def)
qed

lemma total_fits_iff:
  "list_all (\<lambda>k. guaranteedTotal cs k \<le> quantity gr k) (map fst gr @ guaranteedDimensions cs) \<longleftrightarrow>
     (\<forall>k. guaranteedTotal cs k \<le> quantity gr k)"
proof
  assume listed:
    "list_all (\<lambda>k. guaranteedTotal cs k \<le> quantity gr k) (map fst gr @ guaranteedDimensions cs)"
  show "\<forall>k. guaranteedTotal cs k \<le> quantity gr k"
  proof
    fix k
    show "guaranteedTotal cs k \<le> quantity gr k"
    proof (cases "k \<in> fst ` set gr \<union> set (guaranteedDimensions cs)")
      case True
      with listed show ?thesis by (auto simp: list_all_iff)
    next
      case False
      then show ?thesis by (simp add: quantity_absent guaranteedTotal_absent)
    qed
  qed
next
  assume "\<forall>k. guaranteedTotal cs k \<le> quantity gr k"
  then show
    "list_all (\<lambda>k. guaranteedTotal cs k \<le> quantity gr k) (map fst gr @ guaranteedDimensions cs)"
    by (simp add: list_all_iff)
qed

lemma total_equals_iff:
  "list_all (\<lambda>k. quantity gr k = guaranteedTotal cs k) (map fst gr @ guaranteedDimensions cs) \<longleftrightarrow>
     (\<forall>k. quantity gr k = guaranteedTotal cs k)"
proof
  assume listed:
    "list_all (\<lambda>k. quantity gr k = guaranteedTotal cs k) (map fst gr @ guaranteedDimensions cs)"
  show "\<forall>k. quantity gr k = guaranteedTotal cs k"
  proof
    fix k
    show "quantity gr k = guaranteedTotal cs k"
    proof (cases "k \<in> fst ` set gr \<union> set (guaranteedDimensions cs)")
      case True
      with listed show ?thesis by (auto simp: list_all_iff)
    next
      case False
      then show ?thesis by (simp add: quantity_absent guaranteedTotal_absent)
    qed
  qed
next
  assume "\<forall>k. quantity gr k = guaranteedTotal cs k"
  then show
    "list_all (\<lambda>k. quantity gr k = guaranteedTotal cs k) (map fst gr @ guaranteedDimensions cs)"
    by (simp add: list_all_iff)
qed

lemma quantity_sumGuaranteed_total: "quantity (sumGuaranteed cs) k = guaranteedTotal cs k"
  by (simp add: quantity_sumGuaranteed guaranteedTotal_def)

lemma FitIn_sumGuaranteed:
  "FitIn gr (sumGuaranteed cs) \<longleftrightarrow> (\<forall>k. guaranteedTotal cs k \<le> quantity gr k)"
  by (simp add: FitIn_iff quantity_sumGuaranteed_total)

section \<open>The hierarchy check: what a successful check leaves behind\<close>

lemma check_guaranteed_set:
  "checkResourceConfigurationsForQueue q parent = Inr q' \<Longrightarrow> guaranteedResource q' \<noteq> None"
  by (cases q) (auto split: if_splits sum.splits option.splits simp: Let_def)

lemma checkChildren_length:
  "checkChildren cs cur = Inr cs' \<Longrightarrow> length cs' = length cs"
  by (induction cs arbitrary: cs') (auto split: sum.splits)

text \<open>What a successful check of one queue has done (lines 173-196).\<close>

lemma check_node:
  assumes "checkResourceConfigurationsForQueue (QueueInfo n g mx cs) parent = Inr q'"
  shows "\<exists>g' cs'. q' = QueueInfo n (Some g') mx cs' \<and>
           (if cs = [] then cs' = [] \<and> g' = (case g of None \<Rightarrow> NewResource | Some gr \<Rightarrow> gr)
            else checkChildren cs (QueueInfo n g mx cs) = Inr cs' \<and> cs' \<noteq> [] \<and>
                 (case g of
                    None \<Rightarrow> g' = sumGuaranteed cs'
                  | Some gr \<Rightarrow> g' = gr \<and> FitIn gr (sumGuaranteed cs')))"
  using assms
  by (auto split: if_splits sum.splits option.splits simp: Let_def dest: checkChildren_length)

lemma check_sum_both:
  "\<forall>q'. checkResourceConfigurationsForQueue q parent = Inr q' \<longrightarrow> guaranteeSumHolds q'"
  "\<forall>cs'. checkChildren cs cur = Inr cs' \<longrightarrow> list_all guaranteeSumHolds cs'"
proof (induction q parent and cs cur rule: checkResourceConfigurationsForQueue_checkChildren.induct)
  case (1 n g mx cs parent)
  show ?case
  proof (intro allI impI)
    fix q'
    assume ok: "checkResourceConfigurationsForQueue (QueueInfo n g mx cs) parent = Inr q'"
    from check_node [OF ok] obtain g' cs' where
      q': "q' = QueueInfo n (Some g') mx cs'"
      and node: "if cs = [] then cs' = [] \<and> g' = (case g of None \<Rightarrow> NewResource | Some gr \<Rightarrow> gr)
            else checkChildren cs (QueueInfo n g mx cs) = Inr cs' \<and> cs' \<noteq> [] \<and>
                 (case g of
                    None \<Rightarrow> g' = sumGuaranteed cs'
                  | Some gr \<Rightarrow> g' = gr \<and> FitIn gr (sumGuaranteed cs'))"
      by blast
    show "guaranteeSumHolds q'"
    proof (cases "cs = []")
      case True
      with node q' show ?thesis by simp
    next
      case False
      with node have kids: "checkChildren cs (QueueInfo n g mx cs) = Inr cs'"
        and fits: "FitIn g' (sumGuaranteed cs')"
        by (auto split: option.splits simp: FitIn_refl)
      from False have "0 < length cs" by simp
      from "1.IH" [OF this] kids have "list_all guaranteeSumHolds cs'" by blast
      moreover from fits have "\<forall>k. guaranteedTotal cs' k \<le> quantity g' k"
        by (simp add: FitIn_sumGuaranteed)
      ultimately show ?thesis
        using q' by (simp add: list_all_iff)
    qed
  qed
next
  case (2 cur)
  then show ?case by simp
next
  case (3 child rest cur)
  then show ?case by (auto split: sum.splits)
qed

lemma check_inferred_both:
  "\<forall>q'. checkResourceConfigurationsForQueue q parent = Inr q' \<longrightarrow> guaranteeInferred q q'"
  "\<forall>cs'. checkChildren cs cur = Inr cs' \<longrightarrow> list_all2 guaranteeInferred cs cs'"
proof (induction q parent and cs cur rule: checkResourceConfigurationsForQueue_checkChildren.induct)
  case (1 n g mx cs parent)
  show ?case
  proof (intro allI impI)
    fix q'
    assume ok: "checkResourceConfigurationsForQueue (QueueInfo n g mx cs) parent = Inr q'"
    from check_node [OF ok] obtain g' cs' where
      q': "q' = QueueInfo n (Some g') mx cs'"
      and node: "if cs = [] then cs' = [] \<and> g' = (case g of None \<Rightarrow> NewResource | Some gr \<Rightarrow> gr)
            else checkChildren cs (QueueInfo n g mx cs) = Inr cs' \<and> cs' \<noteq> [] \<and>
                 (case g of
                    None \<Rightarrow> g' = sumGuaranteed cs'
                  | Some gr \<Rightarrow> g' = gr \<and> FitIn gr (sumGuaranteed cs'))"
      by blast
    show "guaranteeInferred (QueueInfo n g mx cs) q'"
    proof (cases "cs = []")
      case True
      with node q' show ?thesis by (simp split: option.splits)
    next
      case False
      with node have kids: "checkChildren cs (QueueInfo n g mx cs) = Inr cs'"
        by simp
      from False have "0 < length cs" by simp
      from "1.IH" [OF this] kids have all: "list_all2 guaranteeInferred cs cs'" by blast
      show ?thesis
      proof (cases g)
        case None
        with node False have "g' = sumGuaranteed cs'" by simp
        then have "\<forall>k. quantity g' k = guaranteedTotal cs' k"
          by (simp add: quantity_sumGuaranteed_total)
        with None False all q' show ?thesis
          by (simp add: list_all_iff)
      next
        case (Some gr)
        with node False have "g' = gr" by simp
        with Some all q' show ?thesis by simp
      qed
    qed
  qed
next
  case (2 cur)
  then show ?case by simp
next
  case (3 child rest cur)
  then show ?case by (auto split: sum.splits)
qed

lemma checkMax_invalid: "checkMax n g mx parent = Some e \<Longrightarrow> isInvalidHierarchy e"
  by (auto simp: checkMax_def split: option.splits if_splits)

lemma checkMax_fails_iff:
  "checkMax n g (Some m) parent \<noteq> None \<longleftrightarrow>
     (\<exists>p pm. parent = Some p \<and> maxResource p = Some pm \<and> \<not> FitIn pm m) \<or> \<not> FitIn m g"
  by (auto simp: checkMax_def split: option.splits)

text \<open>Evaluating the examples.\<close>

lemma check_goodQueues:
  "checkResourceConfigurationsForQueue (buildQueue goodQueues) None = Inr (buildQueue goodQueues)"
  by (simp add: goodQueues_def sumGuaranteed_def NewResource_def FitIn_def quantity_def
      checkMax_def)

lemma check_badQueues:
  "checkResourceConfigurationsForQueue (buildQueue badQueues) None =
     Inl (InvalidHierarchy GuaranteedSmallerThanChildren ''root'' [(''memory'', 100)]
            [(''memory'', 110)])"
  by (simp add: badQueues_def sumGuaranteed_def NewResource_def FitIn_def quantity_def
      checkMax_def)

lemma check_cappedQueues:
  "checkResourceConfigurationsForQueue (buildQueue cappedQueues) None =
     Inl (InvalidHierarchy GuaranteedSmallerThanChildren ''root'' [(''memory'', 100)]
            [(''memory'', 110)])"
  by (simp add: cappedQueues_def sumGuaranteed_def NewResource_def FitIn_def quantity_def
      checkMax_def)


lemma check_nestedQueues:
  "checkResourceConfigurationsForQueue (buildQueue nestedQueues) None =
     Inl (InvalidHierarchy MaxLargerThanParent ''a'' [(''memory'', 200)] [(''memory'', 100)])"
  by (simp add: nestedQueues_def sumGuaranteed_def NewResource_def FitIn_def quantity_def
      checkMax_def)

lemma check_threeQueues:
  "checkResourceConfigurationsForQueue (buildQueue threeQueues) None =
     Inr (buildQueue threeQueues)"
  by (simp add: threeQueues_def sumGuaranteed_def NewResource_def FitIn_def quantity_def
      checkMax_def)

lemma check_overQueues:
  "checkResourceConfigurationsForQueue (buildQueue overQueues) None =
     Inl (InvalidHierarchy GuaranteedSmallerThanChildren ''root'' [(''memory'', 100)]
            [(''memory'', 160)])"
  by (simp add: overQueues_def sumGuaranteed_def NewResource_def FitIn_def quantity_def
      checkMax_def)

lemma check_inferThreeQueues:
  "checkResourceConfigurationsForQueue (buildQueue inferThreeQueues) None =
     Inr (QueueInfo ''root'' (Some [(''cpu'', 9), (''memory'', 1)]) None
            [QueueInfo ''a'' (Some [(''cpu'', 2)]) None [],
             QueueInfo ''b'' (Some [(''cpu'', 3)]) None [],
             QueueInfo ''c'' (Some [(''cpu'', 4), (''memory'', 1)]) None [],
             QueueInfo ''d'' (Some []) None []])"
  by (simp add: inferThreeQueues_def sumGuaranteed_def NewResource_def FitIn_def quantity_def
      checkMax_def)

text \<open>
  C1.  On every queue tree that the check accepts, every queue with at least one child
  has a guaranteed resource in which the elementwise sum of its children's guaranteed
  resources fits: in every dimension the total over all the children is at most the
  queue's own quantity, whether the queue's resource was declared or was set by the
  check.  The property holds at every queue of the tree (\<open>guaranteeSumHolds\<close>) and is
  written out for the queue at the top.
\<close>

theorem guarantee_sum_invariant:
  "checkResourceConfigurationsForQueue q parent = Inr q' \<Longrightarrow>
   guaranteeSumHolds q' \<and>
   (children q' \<noteq> [] \<longrightarrow>
      (\<exists>gr. guaranteedResource q' = Some gr \<and>
            (\<forall>k. guaranteedTotal (children q') k \<le> quantity gr k)))"
proof -
  assume ok: "checkResourceConfigurationsForQueue q parent = Inr q'"
  with check_sum_both(1) have holds: "guaranteeSumHolds q'" by blast
  have "children q' \<noteq> [] \<longrightarrow>
      (\<exists>gr. guaranteedResource q' = Some gr \<and>
            (\<forall>k. guaranteedTotal (children q') k \<le> quantity gr k))"
    using holds
    by (cases q') (auto simp: total_fits_iff simp del: list_all_append split: option.splits)
  with holds show ?thesis by simp
qed

theorem guarantee_sum_invariant_witness:
  "checkResourceConfigurationsForQueue (buildQueue threeQueues) None =
     Inr (buildQueue threeQueues) \<and>
   guaranteeSumHolds (buildQueue threeQueues) \<and>
   children (buildQueue threeQueues) \<noteq> [] \<and>
   guaranteedResource (buildQueue threeQueues) = Some [(''memory'', 100)] \<and>
   guaranteedTotal (children (buildQueue threeQueues)) ''memory'' = 100 \<and>
   guaranteedTotal (children (buildQueue threeQueues)) ''memory'' \<le>
     quantity [(''memory'', 100)] ''memory'' \<and>
   guaranteedTotal (children (buildQueue overQueues)) ''memory'' = 160 \<and>
   checkResourceConfigurationsForQueue (buildQueue overQueues) None =
     Inl (InvalidHierarchy GuaranteedSmallerThanChildren ''root'' [(''memory'', 100)]
            [(''memory'', 160)])"
proof -
  have kids: "children (buildQueue threeQueues) \<noteq> []"
    by (simp add: threeQueues_def)
  have root: "guaranteedResource (buildQueue threeQueues) = Some [(''memory'', 100)]"
    by (simp add: threeQueues_def)
  have total: "guaranteedTotal (children (buildQueue threeQueues)) ''memory'' = 100"
    by (simp add: threeQueues_def guaranteedTotal_def quantity_def)
  have over: "guaranteedTotal (children (buildQueue overQueues)) ''memory'' = 160"
    by (simp add: overQueues_def guaranteedTotal_def quantity_def)
  from guarantee_sum_invariant [OF check_threeQueues] kids root
  have "guaranteeSumHolds (buildQueue threeQueues) \<and>
        guaranteedTotal (children (buildQueue threeQueues)) ''memory'' \<le>
          quantity [(''memory'', 100)] ''memory''"
    by simp
  with kids root total over check_threeQueues check_overQueues show ?thesis by simp
qed

text \<open>
  C7.  Where the check succeeds, every queue of the tree whose guaranteed resource was
  unset on entry has it set (\<open>guaranteeInferred\<close>): at a queue with children to a resource
  whose quantity in every dimension is the total over all its checked children, the
  elementwise sum, which is written out for the queue at the top; at a queue without
  children to the new resource, which is zero in every dimension.  A declared guaranteed
  resource, the name and the maximum are kept.  A leaf without a declared guaranteed
  resource is therefore not rejected for that: it is checked exactly like the same leaf
  with the new resource declared, it passes exactly when the checks on its maximum
  against that resource pass, and so it always passes when it has no maximum.
\<close>

theorem unset_guarantee_inferred:
  "(checkResourceConfigurationsForQueue q parent = Inr q' \<longrightarrow>
      guaranteeInferred q q' \<and>
      (guaranteedResource q = None \<and> children q \<noteq> [] \<longrightarrow>
         (\<exists>gr'. guaranteedResource q' = Some gr' \<and>
                (\<forall>k. quantity gr' k = guaranteedTotal (children q') k))) \<and>
      (guaranteedResource q = None \<and> children q = [] \<longrightarrow>
         guaranteedResource q' = Some NewResource \<and> (\<forall>k. quantity NewResource k = 0))) \<and>
   checkResourceConfigurationsForQueue (QueueInfo n None mx []) parent =
     checkResourceConfigurationsForQueue (QueueInfo n (Some NewResource) mx []) parent \<and>
   ((\<exists>leaf'. checkResourceConfigurationsForQueue (QueueInfo n None mx []) parent = Inr leaf') \<longleftrightarrow>
      (\<forall>m. mx = Some m \<longrightarrow>
           (\<forall>p pm. parent = Some p \<and> maxResource p = Some pm \<longrightarrow> FitIn pm m) \<and>
           FitIn m NewResource)) \<and>
   checkResourceConfigurationsForQueue (QueueInfo n None None []) parent =
     Inr (QueueInfo n (Some NewResource) None [])"
proof (intro conjI impI)
  assume ok: "checkResourceConfigurationsForQueue q parent = Inr q'"
  with check_inferred_both(1) show inferred: "guaranteeInferred q q'" by blast
  {
    assume "guaranteedResource q = None \<and> children q \<noteq> []"
    with inferred show "\<exists>gr'. guaranteedResource q' = Some gr' \<and>
                (\<forall>k. quantity gr' k = guaranteedTotal (children q') k)"
      by (cases q) (auto simp: total_equals_iff simp del: list_all_append split: option.splits)
  }
  {
    assume "guaranteedResource q = None \<and> children q = []"
    with inferred show "guaranteedResource q' = Some NewResource"
      by (cases q) (auto split: option.splits)
  }
  show "\<forall>k. quantity NewResource k = 0"
    by (simp add: quantity_def NewResource_def)
next
  show "checkResourceConfigurationsForQueue (QueueInfo n None mx []) parent =
     checkResourceConfigurationsForQueue (QueueInfo n (Some NewResource) mx []) parent"
    by simp
next
  show "(\<exists>leaf'. checkResourceConfigurationsForQueue (QueueInfo n None mx []) parent = Inr leaf') \<longleftrightarrow>
      (\<forall>m. mx = Some m \<longrightarrow>
           (\<forall>p pm. parent = Some p \<and> maxResource p = Some pm \<longrightarrow> FitIn pm m) \<and>
           FitIn m NewResource)"
    by (auto simp: checkMax_def split: option.splits)
next
  show "checkResourceConfigurationsForQueue (QueueInfo n None None []) parent =
     Inr (QueueInfo n (Some NewResource) None [])"
    by (simp add: checkMax_def)
qed

theorem unset_guarantee_inferred_witness:
  "checkResourceConfigurationsForQueue (buildQueue inferThreeQueues) None =
     Inr (QueueInfo ''root'' (Some [(''cpu'', 9), (''memory'', 1)]) None
            [QueueInfo ''a'' (Some [(''cpu'', 2)]) None [],
             QueueInfo ''b'' (Some [(''cpu'', 3)]) None [],
             QueueInfo ''c'' (Some [(''cpu'', 4), (''memory'', 1)]) None [],
             QueueInfo ''d'' (Some []) None []]) \<and>
   guaranteeInferred (buildQueue inferThreeQueues)
     (QueueInfo ''root'' (Some [(''cpu'', 9), (''memory'', 1)]) None
        [QueueInfo ''a'' (Some [(''cpu'', 2)]) None [],
         QueueInfo ''b'' (Some [(''cpu'', 3)]) None [],
         QueueInfo ''c'' (Some [(''cpu'', 4), (''memory'', 1)]) None [],
         QueueInfo ''d'' (Some []) None []]) \<and>
   guaranteedTotal
     [QueueInfo ''a'' (Some [(''cpu'', 2)]) None [],
      QueueInfo ''b'' (Some [(''cpu'', 3)]) None [],
      QueueInfo ''c'' (Some [(''cpu'', 4), (''memory'', 1)]) None [],
      QueueInfo ''d'' (Some []) None []] ''cpu'' = 9 \<and>
   quantity [(''cpu'', 9), (''memory'', 1)] ''cpu'' = 9 \<and>
   FitIn [(''memory'', 5)] NewResource \<and>
   checkResourceConfigurationsForQueue (QueueInfo ''d'' None (Some [(''memory'', 5)]) []) None =
     Inr (QueueInfo ''d'' (Some NewResource) (Some [(''memory'', 5)]) [])"
proof -
  have top: "guaranteedResource (buildQueue inferThreeQueues) = None \<and>
             children (buildQueue inferThreeQueues) \<noteq> []"
    by (simp add: inferThreeQueues_def)
  have total: "guaranteedTotal
     [QueueInfo ''a'' (Some [(''cpu'', 2)]) None [],
      QueueInfo ''b'' (Some [(''cpu'', 3)]) None [],
      QueueInfo ''c'' (Some [(''cpu'', 4), (''memory'', 1)]) None [],
      QueueInfo ''d'' (Some []) None []] ''cpu'' = 9"
    by (simp add: guaranteedTotal_def quantity_def)
  have fits: "FitIn [(''memory'', 5)] NewResource"
    by (simp add: FitIn_def NewResource_def quantity_def)
  have leaf: "checkResourceConfigurationsForQueue
      (QueueInfo ''d'' None (Some [(''memory'', 5)]) []) None =
     Inr (QueueInfo ''d'' (Some NewResource) (Some [(''memory'', 5)]) [])"
    by (simp add: checkMax_def FitIn_def NewResource_def quantity_def)
  from unset_guarantee_inferred [of "buildQueue inferThreeQueues" None
      "QueueInfo ''root'' (Some [(''cpu'', 9), (''memory'', 1)]) None
        [QueueInfo ''a'' (Some [(''cpu'', 2)]) None [],
         QueueInfo ''b'' (Some [(''cpu'', 3)]) None [],
         QueueInfo ''c'' (Some [(''cpu'', 4), (''memory'', 1)]) None [],
         QueueInfo ''d'' (Some []) None []]"
      "''d''" "Some [(''memory'', 5)]"]
    check_inferThreeQueues top total fits leaf
  show ?thesis by simp
qed

text \<open>
  C2, as amended.  Take a queue whose children have passed the check and whose own
  guaranteed resource, when declared, holds the sum of the children's, so that the check
  reaches the part on the maximum; \<open>cs'\<close> are the checked children.  If the maximum is
  set, the check of the queue fails exactly when the parent exists with a maximum that
  does not hold the queue's maximum, or the queue's maximum does not hold its declared or
  inferred guaranteed resource, and the failure is an \<open>InvalidHierarchy\<close> error.  If the
  maximum is unset, nothing more is checked and the queue passes.
\<close>

theorem max_checks_decide:
  assumes "cs = [] \<and> cs' = [] \<or>
           cs \<noteq> [] \<and> checkChildren cs (QueueInfo n g mx cs) = Inr cs' \<and>
             (\<forall>gr. g = Some gr \<longrightarrow> FitIn gr (sumGuaranteed cs'))"
  shows "(\<forall>m. mx = Some m \<longrightarrow>
            ((\<exists>e. checkResourceConfigurationsForQueue (QueueInfo n g mx cs) parent = Inl e) \<longleftrightarrow>
               (\<exists>p pm. parent = Some p \<and> maxResource p = Some pm \<and> \<not> FitIn pm m) \<or>
               \<not> FitIn m (case g of Some gr \<Rightarrow> gr
                           | None \<Rightarrow> if cs = [] then NewResource else sumGuaranteed cs')) \<and>
            (\<forall>e. checkResourceConfigurationsForQueue (QueueInfo n g mx cs) parent = Inl e \<longrightarrow>
               isInvalidHierarchy e)) \<and>
         (mx = None \<longrightarrow>
            checkResourceConfigurationsForQueue (QueueInfo n g mx cs) parent =
              Inr (QueueInfo n
                     (Some (case g of Some gr \<Rightarrow> gr
                            | None \<Rightarrow> if cs = [] then NewResource else sumGuaranteed cs'))
                     None cs'))"
proof -
  let ?g = "case g of Some gr \<Rightarrow> gr | None \<Rightarrow> if cs = [] then NewResource else sumGuaranteed cs'"
  have eq: "checkResourceConfigurationsForQueue (QueueInfo n g mx cs) parent =
              (case checkMax n ?g mx parent of
                 Some err \<Rightarrow> Inl err
               | None \<Rightarrow> Inr (QueueInfo n (Some ?g) mx cs'))"
    using assms by (auto simp: Let_def split: option.splits)
  show ?thesis
    unfolding eq
    using checkMax_fails_iff [of n ?g _ parent] checkMax_invalid [of n ?g mx parent]
    by (auto simp: checkMax_def split: option.splits)
qed

theorem max_checks_decide_witness:
  "checkChildren (children (buildQueue goodQueues))
     (QueueInfo ''root'' (Some [(''memory'', 100)]) (Some [(''memory'', 80)])
        (children (buildQueue goodQueues))) =
     Inr (children (buildQueue goodQueues)) \<and>
   FitIn [(''memory'', 100)] (sumGuaranteed (children (buildQueue goodQueues))) \<and>
   \<not> FitIn [(''memory'', 80)] [(''memory'', 100)] \<and>
   (\<exists>e. checkResourceConfigurationsForQueue
          (QueueInfo ''root'' (Some [(''memory'', 100)]) (Some [(''memory'', 80)])
             (children (buildQueue goodQueues))) None = Inl e) \<and>
   checkResourceConfigurationsForQueue
     (QueueInfo ''root'' (Some [(''memory'', 100)]) None (children (buildQueue goodQueues))) None =
     Inr (QueueInfo ''root'' (Some [(''memory'', 100)]) None (children (buildQueue goodQueues))) \<and>
   maxResource (buildQueue nestedQueues) = Some [(''memory'', 100)] \<and>
   \<not> FitIn [(''memory'', 100)] [(''memory'', 200)] \<and>
   (\<exists>e. checkResourceConfigurationsForQueue
          (QueueInfo ''a'' None (Some [(''memory'', 200)]) []) (Some (buildQueue nestedQueues)) =
          Inl e) \<and>
   checkResourceConfigurationsForQueue (buildQueue nestedQueues) None =
     Inl (InvalidHierarchy MaxLargerThanParent ''a'' [(''memory'', 200)] [(''memory'', 100)])"
proof -
  have parentMax: "maxResource (buildQueue nestedQueues) = Some [(''memory'', 100)]"
    by (simp add: nestedQueues_def)
  have large: "\<not> FitIn [(''memory'', 100)] [(''memory'', 200)]"
    by (simp add: FitIn_def quantity_def)
  from max_checks_decide [of "[]" "[]" "''a''" None "Some [(''memory'', 200)]"
      "Some (buildQueue nestedQueues)"] parentMax large
  have child: "\<exists>e. checkResourceConfigurationsForQueue
          (QueueInfo ''a'' None (Some [(''memory'', 200)]) []) (Some (buildQueue nestedQueues)) =
          Inl e"
    by simp
  have kids:
    "checkChildren (children (buildQueue goodQueues))
       (QueueInfo ''root'' (Some [(''memory'', 100)]) mx (children (buildQueue goodQueues))) =
       Inr (children (buildQueue goodQueues))" for mx
    by (simp add: goodQueues_def sumGuaranteed_def NewResource_def FitIn_def quantity_def
        checkMax_def)
  have fits: "FitIn [(''memory'', 100)] (sumGuaranteed (children (buildQueue goodQueues)))"
    by (simp add: goodQueues_def sumGuaranteed_def NewResource_def FitIn_def quantity_def)
  have nonempty: "children (buildQueue goodQueues) \<noteq> []"
    by (simp add: goodQueues_def)
  have small: "\<not> FitIn [(''memory'', 80)] [(''memory'', 100)]"
    by (simp add: FitIn_def quantity_def)
  from max_checks_decide [of "children (buildQueue goodQueues)"
      "children (buildQueue goodQueues)" "''root''" "Some [(''memory'', 100)]"
      "Some [(''memory'', 80)]" None]
    max_checks_decide [of "children (buildQueue goodQueues)"
      "children (buildQueue goodQueues)" "''root''" "Some [(''memory'', 100)]" None None]
    kids fits nonempty small
  have root: "checkChildren (children (buildQueue goodQueues))
     (QueueInfo ''root'' (Some [(''memory'', 100)]) (Some [(''memory'', 80)])
        (children (buildQueue goodQueues))) =
     Inr (children (buildQueue goodQueues)) \<and>
   FitIn [(''memory'', 100)] (sumGuaranteed (children (buildQueue goodQueues))) \<and>
   \<not> FitIn [(''memory'', 80)] [(''memory'', 100)] \<and>
   (\<exists>e. checkResourceConfigurationsForQueue
          (QueueInfo ''root'' (Some [(''memory'', 100)]) (Some [(''memory'', 80)])
             (children (buildQueue goodQueues))) None = Inl e) \<and>
   checkResourceConfigurationsForQueue
     (QueueInfo ''root'' (Some [(''memory'', 100)]) None (children (buildQueue goodQueues))) None =
     Inr (QueueInfo ''root'' (Some [(''memory'', 100)]) None (children (buildQueue goodQueues)))"
    by simp
  from root parentMax large child check_nestedQueues show ?thesis by simp
qed

text \<open>
  The claim C2 as it is written fails on \<open>cappedQueues\<close>: the check fails with an
  \<open>InvalidHierarchy\<close> error (the children's sum 110 exceeds the declared 100), although
  the maximum is set, there is no parent, and the declared guaranteed resource fits in
  the maximum.
\<close>

theorem max_only_failure_counterexample:
  "maxResource (buildQueue cappedQueues) = Some [(''memory'', 1000)] \<and>
   guaranteedResource (buildQueue cappedQueues) = Some [(''memory'', 100)] \<and>
   FitIn [(''memory'', 1000)] [(''memory'', 100)] \<and>
   checkResourceConfigurationsForQueue (buildQueue cappedQueues) None =
     Inl (InvalidHierarchy GuaranteedSmallerThanChildren ''root'' [(''memory'', 100)]
            [(''memory'', 110)]) \<and>
   isInvalidHierarchy
     (InvalidHierarchy GuaranteedSmallerThanChildren ''root'' [(''memory'', 100)]
        [(''memory'', 110)])"
  by (simp add: check_cappedQueues) (simp add: cappedQueues_def FitIn_def quantity_def)

section \<open>Iterating over the entries and over the map\<close>

text \<open>
  A loop over a list of entries runs the first part of the list and then, unless that
  failed, the rest from where the first part stopped.
\<close>

lemma createLoop_append:
  "createLoop deps rmID (xs @ ys) c u =
     (case createLoop deps rmID xs c u of
        ((l, Some err), c') \<Rightarrow> ((l, Some err), c')
      | ((u', None), c') \<Rightarrow> createLoop deps rmID ys c' u')"
  by (induction xs arbitrary: c u) (auto simp: Let_def split: sum.splits)

lemma updateLoop_append:
  "updateLoop deps rmID (xs @ ys) c u v =
     (case updateLoop deps rmID xs c u v of
        (Inl err, c') \<Rightarrow> (Inl err, c')
      | (Inr (u', v'), c') \<Rightarrow> updateLoop deps rmID ys c' u' v')"
  by (induction xs arbitrary: c u v) (auto simp: Let_def split: sum.splits option.splits prod.splits)

text \<open>
  The step at an entry that fails.
\<close>

lemma createLoop_fail_step:
  "newPartitionInfoInternal deps (normalized deps rmID p) rmID = Inl err \<Longrightarrow>
   createLoop deps rmID (p # ps) c u = (([], Some err), c)"
  by (simp add: normalized_def normalizedName_def Let_def)

lemma updateLoop_candidate_fail_step:
  "map_of (partitions c) (normalizedName deps rmID p) = Some part \<Longrightarrow>
   newPartitionInfoInternal deps (normalized deps rmID p) rmID = Inl err \<Longrightarrow>
   updateLoop deps rmID (p # ps) c u v = (Inl err, c)"
  by (simp add: normalized_def normalizedName_def Let_def)

lemma updateLoop_new_fail_step:
  "map_of (partitions c) (normalizedName deps rmID p) = None \<Longrightarrow>
   newPartitionInfoInternal deps (normalized deps rmID p) rmID = Inl err \<Longrightarrow>
   updateLoop deps rmID (p # ps) c u v =
     (Inl err, addPartition c (normalizedName deps rmID p) None)"
  by (simp add: normalized_def normalizedName_def Let_def)

text \<open>
  Each loop touches the map only under the names of its entries, and keeps the policy
  group.
\<close>

lemma createLoop_other_keys:
  "createLoop deps rmID ps c u = (r, c') \<Longrightarrow> k \<notin> normalizedName deps rmID ` set ps \<Longrightarrow>
   map_of (partitions c') k = map_of (partitions c) k"
  by (induction ps arbitrary: c u)
     (auto simp: Let_def addPartition_def update_conv' normalizedName_def split: sum.splits)

lemma updateLoop_other_keys:
  "updateLoop deps rmID ps c u v = (r, c') \<Longrightarrow> k \<notin> normalizedName deps rmID ` set ps \<Longrightarrow>
   map_of (partitions c') k = map_of (partitions c) k"
proof (induction ps arbitrary: c u v)
  case Nil
  then show ?case by simp
next
  case (Cons p ps)
  from Cons.prems(2) have k: "k \<noteq> GetNormalizedPartitionName deps (cName p) rmID"
    and ks: "k \<notin> normalizedName deps rmID ` set ps"
    by (auto simp: normalizedName_def)
  from Cons.prems(1) show ?case
    using Cons.IH [OF _ ks] k
    by (auto simp: Let_def addPartition_def update_conv' split: sum.splits option.splits prod.splits)
qed

lemma createLoop_policyGroup:
  "createLoop deps rmID ps c u = (r, c') \<Longrightarrow> policyGroup c' = policyGroup c"
  by (induction ps arbitrary: c u) (auto simp: Let_def addPartition_def split: sum.splits)


lemma updateLoop_nonempty:
  "updateLoop deps rmID ps c u v = (r, c') \<Longrightarrow> partitions c \<noteq> [] \<Longrightarrow> partitions c' \<noteq> []"
proof (induction ps arbitrary: c u v)
  case Nil
  then show ?case by simp
next
  case (Cons p ps)
  from Cons.prems show ?case
    using Cons.IH
    by (auto simp: Let_def addPartition_def split: sum.splits option.splits prod.splits)
qed

text \<open>
  Committed names stay committed, and the names of the entries that were handled are committed.
\<close>

lemma committed_update: "committed (c\<lparr>partitions := AList.update k (Some part) (partitions c)\<rparr>) k' \<longleftrightarrow> k' = k \<or> committed c k'"
  by (simp add: committed_def update_conv')

lemma createLoop_committed:
  "createLoop deps rmID ps c u = (r, c') \<Longrightarrow> committed c k \<Longrightarrow> committed c' k"
  by (induction ps arbitrary: c u)
     (auto simp: Let_def addPartition_def committed_update split: sum.splits)

lemma createLoop_commits:
  "createLoop deps rmID ps c u = ((u', None), c') \<Longrightarrow> q \<in> set ps \<Longrightarrow>
   committed c' (normalizedName deps rmID q)"
proof (induction ps arbitrary: c u)
  case Nil
  then show ?case by simp
next
  case (Cons p ps)
  then show ?case
    by (auto simp: Let_def addPartition_def committed_update normalizedName_def
        split: sum.splits dest: createLoop_committed)
qed

lemma updateLoop_committed:
  "updateLoop deps rmID ps c u v = (r, c') \<Longrightarrow> committed c k \<Longrightarrow> committed c' k"
proof (induction ps arbitrary: c u v)
  case Nil
  then show ?case by simp
next
  case (Cons p ps)
  show ?case
  proof (cases "map_of (partitions c) (GetNormalizedPartitionName deps (cName p) rmID)")
    case None
    then have "k \<noteq> GetNormalizedPartitionName deps (cName p) rmID"
      using Cons.prems(2) by (auto simp: committed_def)
    then have "committed (addPartition c (GetNormalizedPartitionName deps (cName p) rmID) x) k" for x
      using Cons.prems(2) by (simp add: committed_def addPartition_def update_conv')
    with Cons.prems(1) None Cons.IH show ?thesis
      by (auto simp: Let_def split: sum.splits)
  next
    case (Some part)
    with Cons.prems Cons.IH show ?thesis
      by (auto simp: Let_def committed_update split: sum.splits option.splits prod.splits)
  qed
qed

lemma updateLoop_commits:
  "updateLoop deps rmID ps c u v = (Inr (u', v'), c') \<Longrightarrow> q \<in> set ps \<Longrightarrow>
   committed c' (normalizedName deps rmID q)"
proof (induction ps arbitrary: c u v)
  case Nil
  then show ?case by simp
next
  case (Cons p ps)
  then show ?case
    by (auto simp: Let_def addPartition_def committed_update normalizedName_def
        split: sum.splits option.splits prod.splits dest: updateLoop_committed)
qed

text \<open>
  The visited names after the first loop of the update.
\<close>

lemma updateLoop_visited:
  "updateLoop deps rmID ps c u v = (Inr (u', v'), c') \<Longrightarrow>
   v' = (\<lambda>k. v k \<or> k \<in> normalizedName deps rmID ` set ps)"
proof (induction ps arbitrary: c u v)
  case Nil
  then show ?case by simp
next
  case (Cons p ps)
  from Cons.prems show ?case
    by (auto simp: Let_def normalizedName_def fun_eq_iff
        split: sum.splits option.splits prod.splits dest!: Cons.IH)
qed

text \<open>
  The second loop of the update keeps the keys and marks the partitions whose name was not
  visited; marking twice is marking once.
\<close>

lemma markLoop_keys:
  "markLoop v al d = (r, al') \<Longrightarrow> map fst al' = map fst al"
  by (induction v al d arbitrary: r al' rule: markLoop.induct)
     (auto split: if_splits prod.splits)

lemma markLoop_deleted_mono:
  "markLoop v al d = (Inr d', al') \<Longrightarrow> set d \<subseteq> set d'"
  by (induction v al d arbitrary: d' al' rule: markLoop.induct)
     (auto split: if_splits prod.splits)

lemma markLoop_map_of:
  "markLoop v al d = (Inr d', al') \<Longrightarrow>
   map_of al' k =
     map_option (map_option (\<lambda>part. if \<not> v (pName part) then markPartitionForRemoval part else part))
       (map_of al k)"
  by (induction v al d arbitrary: d' al' rule: markLoop.induct)
     (auto split: if_splits prod.splits)

lemma markLoop_marks:
  "markLoop v al d = (Inr d', al') \<Longrightarrow> map_of al k = Some (Some part) \<Longrightarrow>
   \<not> v (pName part) \<Longrightarrow> markPartitionForRemoval part \<in> set d'"
proof (induction v al d arbitrary: d' al' rule: markLoop.induct)
  case (1 visited deletedPartitions)
  then show ?case by simp
next
  case (2 visited k' rest deletedPartitions)
  then show ?case by simp
next
  case (3 visited k' part' rest deletedPartitions)
  show ?case
  proof (cases "k = k'")
    case True
    with "3.prems" show ?thesis
      by (auto split: if_splits prod.splits dest: markLoop_deleted_mono)
  next
    case False
    with "3.prems" "3.IH" show ?thesis
      by (auto split: if_splits prod.splits)
  qed
qed

lemma pName_mark [simp]: "pName (markPartitionForRemoval part) = pName part"
  by (simp add: markPartitionForRemoval_def)

lemma mark_mark [simp]:
  "markPartitionForRemoval (markPartitionForRemoval part) = markPartitionForRemoval part"
  by (simp add: markPartitionForRemoval_def)

lemma mark_marked:
  "state part = PendingRemoval \<Longrightarrow> markPartitionForRemoval part = part"
  by (cases part) (simp add: markPartitionForRemoval_def)






section \<open>Evaluating the examples\<close>

lemma exampleDeps_simps:
  "GetNormalizedPartitionName (exampleDeps conf) name rmID = ''['' @ rmID @ '']'' @ name"
  "SchedulerConfigLoader (exampleDeps conf) pg = Inr conf"
  "newPartitionInfo (exampleDeps conf) p rmID =
     Inr \<lparr>pName = cName p, Root = buildQueue (Queues p), RmID = rmID, state = Active\<rparr>"
  "updatePartitionDetails (exampleDeps conf) part p = (part\<lparr>Root := buildQueue (Queues p)\<rparr>, None)"
  by (simp_all add: exampleDeps_def)

lemma newInternal_good:
  "Queues p = goodQueues \<Longrightarrow>
   newPartitionInfoInternal (exampleDeps conf) p rmID =
     Inr \<lparr>pName = cName p, Root = buildQueue goodQueues, RmID = rmID, state = Active\<rparr>"
  by (simp add: newPartitionInfoInternal_def exampleDeps_simps check_goodQueues)

lemma newInternal_bad:
  "Queues p = badQueues \<Longrightarrow>
   newPartitionInfoInternal (exampleDeps conf) p rmID = Inl sumError"
  by (simp add: newPartitionInfoInternal_def exampleDeps_simps check_badQueues sumError_def)

lemmas example_simps =
  exampleDeps_simps newInternal_good newInternal_bad exampleEntry_def exampleWorld_def
  examplePartition_def defaultPart_def oldPart_def extraPart_def addPartition_def Let_def
  normalized_def normalizedName_def

lemma update_new_bad:
  "UpdateClusterInfoFromConfigFile (exampleDeps confNewBad)
     (exampleWorld [(''[rm]default'', Some defaultPart)]) ''rm'' =
   (([], [], Some sumError),
    \<lparr>cluster = \<lparr>partitions = [(''[rm]default'', Some defaultPart), (''[rm]extra'', None)],
                 policyGroup = ''queues''\<rparr>,
      ConfigContext = [''queues'' \<mapsto> confNewBad], loaderCalls = [''queues'']\<rparr>)"
  by (simp add: UpdateClusterInfoFromConfigFile_def ConfigContext_Set_def confNewBad_def example_simps)

lemma update_new_then_bad:
  "UpdateClusterInfoFromConfigFile (exampleDeps confNewThenBad)
     (exampleWorld [(''[rm]default'', Some defaultPart)]) ''rm'' =
   (([], [], Some sumError),
    \<lparr>cluster = \<lparr>partitions = [(''[rm]default'', Some defaultPart), (''[rm]extra'', Some extraPart)],
                 policyGroup = ''queues''\<rparr>,
      ConfigContext = [''queues'' \<mapsto> confNewThenBad], loaderCalls = [''queues'']\<rparr>)"
  by (simp add: UpdateClusterInfoFromConfigFile_def ConfigContext_Set_def confNewThenBad_def example_simps)

lemma set_good_then_bad:
  "SetClusterInfoFromConfigFile (exampleDeps confGoodThenBad) (exampleWorld []) ''rm'' ''queues'' =
   (([], Some sumError),
    \<lparr>cluster = \<lparr>partitions = [(''[rm]default'', Some defaultPart)], policyGroup = ''queues''\<rparr>,
      ConfigContext = [''queues'' \<mapsto> confGoodThenBad], loaderCalls = [''queues'']\<rparr>)"
  by (simp add: SetClusterInfoFromConfigFile_def ConfigContext_Set_def createPartitionInfos_def confGoodThenBad_def
      example_simps)

lemma update_default_first:
  "UpdateClusterInfoFromConfigFile (exampleDeps confDefault)
     (exampleWorld [(''[rm]default'', Some defaultPart), (''[rm]old'', Some oldPart)]) ''rm'' =
   (([defaultPart], [markPartitionForRemoval oldPart], None),
    \<lparr>cluster = \<lparr>partitions = [(''[rm]default'', Some defaultPart),
                               (''[rm]old'', Some (markPartitionForRemoval oldPart))],
                 policyGroup = ''queues''\<rparr>,
      ConfigContext = [''queues'' \<mapsto> confDefault], loaderCalls = [''queues'']\<rparr>)"
  by (simp add: UpdateClusterInfoFromConfigFile_def ConfigContext_Set_def confDefault_def example_simps)

lemma update_default_second:
  "UpdateClusterInfoFromConfigFile (exampleDeps confDefault)
     \<lparr>cluster = \<lparr>partitions = [(''[rm]default'', Some defaultPart),
                               (''[rm]old'', Some (markPartitionForRemoval oldPart))],
                 policyGroup = ''queues''\<rparr>,
      ConfigContext = [''queues'' \<mapsto> confDefault], loaderCalls = [''queues'']\<rparr> ''rm'' =
   (([defaultPart], [markPartitionForRemoval oldPart], None),
    \<lparr>cluster = \<lparr>partitions = [(''[rm]default'', Some defaultPart),
                               (''[rm]old'', Some (markPartitionForRemoval oldPart))],
                 policyGroup = ''queues''\<rparr>,
      ConfigContext = [''queues'' \<mapsto> confDefault], loaderCalls = [''queues'', ''queues'']\<rparr>)"
  by (simp add: UpdateClusterInfoFromConfigFile_def ConfigContext_Set_def confDefault_def example_simps
      markPartitionForRemoval_def)

lemma update_after_nil:
  "fst (UpdateClusterInfoFromConfigFile (exampleDeps confDefault)
     \<lparr>cluster = \<lparr>partitions = [(''[rm]default'', Some defaultPart), (''[rm]extra'', None)],
                 policyGroup = ''queues''\<rparr>,
      ConfigContext = [''queues'' \<mapsto> confNewBad], loaderCalls = [''queues'']\<rparr> ''rm'') =
   ([], [], Some NilDereference)"
  by (simp add: UpdateClusterInfoFromConfigFile_def ConfigContext_Set_def confDefault_def example_simps)

lemma example_prefix_update:
  "updateLoop (exampleDeps confNewThenBad) ''rm'' [exampleEntry ''extra'' goodQueues]
     (cluster (exampleWorld [(''[rm]default'', Some defaultPart)])) [] (\<lambda>k. False) =
   (Inr ([extraPart], (\<lambda>k. False)(''[rm]extra'' := True)),
    \<lparr>partitions = [(''[rm]default'', Some defaultPart), (''[rm]extra'', Some extraPart)],
      policyGroup = ''queues''\<rparr>)"
  by (simp add: example_simps)

lemma example_prefix_create:
  "createLoop (exampleDeps confGoodThenBad) ''rm'' [exampleEntry ''default'' goodQueues]
     (cluster (exampleWorld [])) [] =
   (([defaultPart], None),
    \<lparr>partitions = [(''[rm]default'', Some defaultPart)], policyGroup = ''queues''\<rparr>)"
  by (simp add: example_simps)




section \<open>Bootstrap on a cluster that already has partitions\<close>

text \<open>
  C6.  On a cluster that holds at least one partition,
  \<^verbatim>\<open>SetClusterInfoFromConfigFile\<close> returns an empty slice and the state-conflict error of
  line 61, and leaves the whole world as it was: the partition map with every partition
  in it, the policy group, the active configurations, and the log of loader calls (the
  loader is not called; the result does not depend on the collaborators at all).
\<close>

theorem bootstrap_precondition:
  "partitions (cluster w) \<noteq> [] \<Longrightarrow>
   SetClusterInfoFromConfigFile deps w rmID pg =
     (([], Some (AlreadyRegistered rmID (length (partitions (cluster w))))), w) \<and>
   isStateConflict (AlreadyRegistered rmID (length (partitions (cluster w))))"
  by (simp add: SetClusterInfoFromConfigFile_def ConfigContext_Set_def)

theorem bootstrap_precondition_witness:
  "partitions (cluster (exampleWorld [(''[rm]default'', Some defaultPart)])) \<noteq> [] \<and>
   SetClusterInfoFromConfigFile (exampleDeps confDefault)
     (exampleWorld [(''[rm]default'', Some defaultPart)]) ''rm'' ''queues'' =
     (([], Some (AlreadyRegistered ''rm'' 1)), exampleWorld [(''[rm]default'', Some defaultPart)])"
  using bootstrap_precondition [of "exampleWorld [(''[rm]default'', Some defaultPart)]"
      "exampleDeps confDefault" "''rm''" "''queues''"]
  by (simp add: exampleWorld_def)

section \<open>The active configuration is set before the partitions are built\<close>

text \<open>
  C10.  In both entry points, once the check on the number of partitions has passed and
  the loader has returned a configuration, that configuration is the active one of the
  policy group in the world the call leaves behind, whatever happens afterwards: the
  source sets it (lines 70 and 98) before it builds or checks any partition, and nothing
  after that touches it.  In particular it is active when a later check fails and the
  call returns the error.
\<close>

theorem config_published_first:
  "(partitions (cluster w) = [] \<and> SchedulerConfigLoader deps pg = Inr conf \<longrightarrow>
      ConfigContext (snd (SetClusterInfoFromConfigFile deps w rmID pg)) =
        (ConfigContext w)(pg \<mapsto> conf)) \<and>
   (partitions (cluster w') \<noteq> [] \<and>
    SchedulerConfigLoader deps' (policyGroup (cluster w')) = Inr conf' \<longrightarrow>
      ConfigContext (snd (UpdateClusterInfoFromConfigFile deps' w' rmID')) =
        (ConfigContext w')(policyGroup (cluster w') \<mapsto> conf'))"
  by (auto simp: SetClusterInfoFromConfigFile_def UpdateClusterInfoFromConfigFile_def
      ConfigContext_Set_def Let_def split: prod.splits sum.splits option.splits)

theorem config_published_first_witness:
  "snd (fst (SetClusterInfoFromConfigFile (exampleDeps confGoodThenBad) (exampleWorld [])
       ''rm'' ''queues'')) = Some sumError \<and>
   ConfigContext (snd (SetClusterInfoFromConfigFile (exampleDeps confGoodThenBad)
       (exampleWorld []) ''rm'' ''queues'')) ''queues'' = Some confGoodThenBad \<and>
   snd (snd (fst (UpdateClusterInfoFromConfigFile (exampleDeps confNewBad)
       (exampleWorld [(''[rm]default'', Some defaultPart)]) ''rm''))) = Some sumError \<and>
   ConfigContext (snd (UpdateClusterInfoFromConfigFile (exampleDeps confNewBad)
       (exampleWorld [(''[rm]default'', Some defaultPart)]) ''rm'')) ''queues'' = Some confNewBad"
proof -
  have empty: "partitions (cluster (exampleWorld [])) = []"
    by (simp add: exampleWorld_def)
  have nonempty: "partitions (cluster (exampleWorld [(''[rm]default'', Some defaultPart)])) \<noteq> []"
    by (simp add: exampleWorld_def)
  have group: "policyGroup (cluster (exampleWorld [(''[rm]default'', Some defaultPart)])) = ''queues''"
    by (simp add: exampleWorld_def)
  from config_published_first [of "exampleWorld []" "exampleDeps confGoodThenBad" "''queues''"
      confGoodThenBad "''rm''" "exampleWorld [(''[rm]default'', Some defaultPart)]"
      "exampleDeps confNewBad" confNewBad "''rm''"]
    empty nonempty group
  have "ConfigContext (snd (SetClusterInfoFromConfigFile (exampleDeps confGoodThenBad)
            (exampleWorld []) ''rm'' ''queues'')) ''queues'' = Some confGoodThenBad \<and>
        ConfigContext (snd (UpdateClusterInfoFromConfigFile (exampleDeps confNewBad)
            (exampleWorld [(''[rm]default'', Some defaultPart)]) ''rm'')) ''queues'' =
          Some confNewBad"
    by (simp add: exampleDeps_simps)
  moreover have "snd (fst (SetClusterInfoFromConfigFile (exampleDeps confGoodThenBad)
      (exampleWorld []) ''rm'' ''queues'')) = Some sumError"
    by (simp add: set_good_then_bad)
  moreover have "snd (snd (fst (UpdateClusterInfoFromConfigFile (exampleDeps confNewBad)
       (exampleWorld [(''[rm]default'', Some defaultPart)]) ''rm''))) = Some sumError"
    by (simp add: update_new_bad)
  ultimately show ?thesis by blast
qed

section \<open>A new partition that fails its check\<close>

text \<open>
  C3.  The claim is that a partition reaches the map only after its check has passed.
  In the branch for a new partition the update calls \<^verbatim>\<open>addPartition\<close> (line 127) before
  it looks at the error (line 128), whereas \<^verbatim>\<open>createPartitionInfos\<close> looks at the error
  first (lines 43-47).  On a cluster with the partition \<open>[rm]default\<close> and a configuration
  whose only entry \<open>extra\<close> fails the check, the update returns the error and leaves the
  name \<open>[rm]extra\<close>, unknown before, in the map with a \<^verbatim>\<open>nil\<close> partition; the map has two
  entries then, and the next update (here with a configuration that has \<open>default\<close> only)
  panics when its second loop reads the name of that entry.
\<close>

theorem new_partition_failure_stores_nil:
  "fst (UpdateClusterInfoFromConfigFile (exampleDeps confNewBad)
     (exampleWorld [(''[rm]default'', Some defaultPart)]) ''rm'') = ([], [], Some sumError) \<and>
   map_of (partitions (cluster (exampleWorld [(''[rm]default'', Some defaultPart)])))
     ''[rm]extra'' = None \<and>
   map_of (partitions (cluster (snd (UpdateClusterInfoFromConfigFile (exampleDeps confNewBad)
     (exampleWorld [(''[rm]default'', Some defaultPart)]) ''rm'')))) ''[rm]extra'' = Some None \<and>
   length (partitions (cluster (snd (UpdateClusterInfoFromConfigFile (exampleDeps confNewBad)
     (exampleWorld [(''[rm]default'', Some defaultPart)]) ''rm'')))) = 2 \<and>
   fst (UpdateClusterInfoFromConfigFile (exampleDeps confDefault)
     (snd (UpdateClusterInfoFromConfigFile (exampleDeps confNewBad)
        (exampleWorld [(''[rm]default'', Some defaultPart)]) ''rm'')) ''rm'') =
     ([], [], Some NilDereference)"
  using update_after_nil by (simp add: update_new_bad) (simp add: exampleWorld_def)

section \<open>A known partition whose new configuration fails the check\<close>

text \<open>
  C4, as amended.  When the update reaches an entry whose name is already in the map and
  the check of the candidate built from the entry fails, the call returns that error
  with empty slices, and the entry changes nothing: the cluster is exactly as the
  entries before it left it.  It is the cluster from before the call when the failing
  entry is the first one; partitions added or updated for earlier entries keep their
  new state.
\<close>

theorem candidate_failure_keeps_registry:
  assumes "partitions (cluster w) \<noteq> []"
    and "SchedulerConfigLoader deps (policyGroup (cluster w)) = Inr conf"
    and "Partitions conf = pre @ p # post"
    and "updateLoop deps rmID pre (cluster w) [] (\<lambda>k. False) = (Inr (u, v), c1)"
    and "map_of (partitions c1) (normalizedName deps rmID p) = Some part"
    and "newPartitionInfoInternal deps (normalized deps rmID p) rmID = Inl err"
  shows "fst (UpdateClusterInfoFromConfigFile deps w rmID) = ([], [], Some err) \<and>
         cluster (snd (UpdateClusterInfoFromConfigFile deps w rmID)) = c1 \<and>
         (pre = [] \<longrightarrow> cluster (snd (UpdateClusterInfoFromConfigFile deps w rmID)) = cluster w)"
proof -
  have loop: "updateLoop deps rmID (Partitions conf) (cluster w) [] (\<lambda>k. False) = (Inl err, c1)"
    using assms(3-6)
    by (simp add: updateLoop_append updateLoop_candidate_fail_step del: updateLoop.simps)
  have res: "fst (UpdateClusterInfoFromConfigFile deps w rmID) = ([], [], Some err) \<and>
         cluster (snd (UpdateClusterInfoFromConfigFile deps w rmID)) = c1"
    using assms(1,2) loop
    by (simp add: UpdateClusterInfoFromConfigFile_def ConfigContext_Set_def Let_def)
  moreover have "pre = [] \<Longrightarrow> c1 = cluster w"
    using assms(4) by simp
  ultimately show ?thesis by simp
qed

theorem candidate_failure_keeps_registry_witness:
  "map_of [(''[rm]default'', Some defaultPart), (''[rm]extra'', Some extraPart)]
     (normalizedName (exampleDeps confNewThenBad) ''rm'' (exampleEntry ''default'' badQueues)) =
     Some (Some defaultPart) \<and>
   newPartitionInfoInternal (exampleDeps confNewThenBad)
     (normalized (exampleDeps confNewThenBad) ''rm'' (exampleEntry ''default'' badQueues)) ''rm'' =
     Inl sumError \<and>
   fst (UpdateClusterInfoFromConfigFile (exampleDeps confNewThenBad)
     (exampleWorld [(''[rm]default'', Some defaultPart)]) ''rm'') = ([], [], Some sumError) \<and>
   cluster (snd (UpdateClusterInfoFromConfigFile (exampleDeps confNewThenBad)
     (exampleWorld [(''[rm]default'', Some defaultPart)]) ''rm'')) =
     \<lparr>partitions = [(''[rm]default'', Some defaultPart), (''[rm]extra'', Some extraPart)],
       policyGroup = ''queues''\<rparr> \<and>
   fst (UpdateClusterInfoFromConfigFile (exampleDeps confDefaultBad)
     (exampleWorld [(''[rm]default'', Some defaultPart)]) ''rm'') = ([], [], Some sumError) \<and>
   cluster (snd (UpdateClusterInfoFromConfigFile (exampleDeps confDefaultBad)
     (exampleWorld [(''[rm]default'', Some defaultPart)]) ''rm'')) =
     cluster (exampleWorld [(''[rm]default'', Some defaultPart)])"
proof -
  have nonempty: "partitions (cluster (exampleWorld [(''[rm]default'', Some defaultPart)])) \<noteq> []"
    by (simp add: exampleWorld_def)
  have loaded: "SchedulerConfigLoader (exampleDeps confNewThenBad)
      (policyGroup (cluster (exampleWorld [(''[rm]default'', Some defaultPart)]))) =
      Inr confNewThenBad"
    by (simp add: exampleDeps_simps)
  have entries: "Partitions confNewThenBad =
      [exampleEntry ''extra'' goodQueues] @ exampleEntry ''default'' badQueues # []"
    by (simp add: confNewThenBad_def)
  have known: "map_of
      (partitions \<lparr>partitions = [(''[rm]default'', Some defaultPart), (''[rm]extra'', Some extraPart)],
                   policyGroup = ''queues''\<rparr>)
      (normalizedName (exampleDeps confNewThenBad) ''rm'' (exampleEntry ''default'' badQueues)) =
      Some (Some defaultPart)"
    by (simp add: example_simps)
  have fails: "newPartitionInfoInternal (exampleDeps confNewThenBad)
      (normalized (exampleDeps confNewThenBad) ''rm'' (exampleEntry ''default'' badQueues)) ''rm'' =
      Inl sumError"
    by (simp add: newInternal_bad normalized_def exampleEntry_def)
  have loaded': "SchedulerConfigLoader (exampleDeps confDefaultBad)
      (policyGroup (cluster (exampleWorld [(''[rm]default'', Some defaultPart)]))) =
      Inr confDefaultBad"
    by (simp add: exampleDeps_simps)
  have entries': "Partitions confDefaultBad = [] @ exampleEntry ''default'' badQueues # []"
    by (simp add: confDefaultBad_def)
  have start: "updateLoop (exampleDeps confDefaultBad) ''rm'' []
      (cluster (exampleWorld [(''[rm]default'', Some defaultPart)])) [] (\<lambda>k. False) =
      (Inr ([], \<lambda>k. False), cluster (exampleWorld [(''[rm]default'', Some defaultPart)]))"
    by simp
  have known': "map_of (partitions (cluster (exampleWorld [(''[rm]default'', Some defaultPart)])))
      (normalizedName (exampleDeps confDefaultBad) ''rm'' (exampleEntry ''default'' badQueues)) =
      Some (Some defaultPart)"
    by (simp add: example_simps)
  have fails': "newPartitionInfoInternal (exampleDeps confDefaultBad)
      (normalized (exampleDeps confDefaultBad) ''rm'' (exampleEntry ''default'' badQueues)) ''rm'' =
      Inl sumError"
    by (simp add: newInternal_bad normalized_def exampleEntry_def)
  from candidate_failure_keeps_registry [OF nonempty loaded entries example_prefix_update
      known fails]
    candidate_failure_keeps_registry [OF nonempty loaded' entries' start known' fails']
    known fails
  show ?thesis by simp
qed

text \<open>
  The claim C4 as it is written fails: on a cluster with the partition \<open>[rm]default\<close>
  and a configuration that first adds \<open>extra\<close> and then gives \<open>default\<close> queues that fail
  the check, the update returns the error of the candidate for the known partition
  \<open>[rm]default\<close>, and the map holds \<open>[rm]extra\<close>, which it did not hold before the call.
\<close>

theorem earlier_addition_stays_counterexample:
  "map_of (partitions (cluster (exampleWorld [(''[rm]default'', Some defaultPart)])))
     ''[rm]default'' = Some (Some defaultPart) \<and>
   newPartitionInfoInternal (exampleDeps confNewThenBad)
     (normalized (exampleDeps confNewThenBad) ''rm'' (exampleEntry ''default'' badQueues)) ''rm'' =
     Inl sumError \<and>
   fst (UpdateClusterInfoFromConfigFile (exampleDeps confNewThenBad)
     (exampleWorld [(''[rm]default'', Some defaultPart)]) ''rm'') = ([], [], Some sumError) \<and>
   map_of (partitions (cluster (exampleWorld [(''[rm]default'', Some defaultPart)])))
     ''[rm]extra'' = None \<and>
   map_of (partitions (cluster (snd (UpdateClusterInfoFromConfigFile (exampleDeps confNewThenBad)
     (exampleWorld [(''[rm]default'', Some defaultPart)]) ''rm'')))) ''[rm]extra'' =
     Some (Some extraPart)"
  by (simp add: update_new_then_bad)
     (simp add: exampleWorld_def newInternal_bad normalized_def exampleEntry_def)

section \<open>A failure at a later entry\<close>

text \<open>
  C5, as amended.  When either entry point fails at an entry, after the entries before
  it were handled without error, the slices returned with the error are empty, and what
  the earlier entries committed stays: after the bootstrap the cluster is exactly as the
  earlier entries left it; after the update it differs from that at most under the name
  of the failing entry; in both cases the name of every earlier entry is committed.
\<close>

theorem failure_keeps_earlier_commits:
  "(partitions (cluster w) = [] \<and> SchedulerConfigLoader deps pg = Inr conf \<and>
    Partitions conf = pre @ p # post \<and>
    createLoop deps rmID pre (cluster w) [] = ((u, None), c1) \<and>
    newPartitionInfoInternal deps (normalized deps rmID p) rmID = Inl err \<longrightarrow>
      fst (SetClusterInfoFromConfigFile deps w rmID pg) = ([], Some err) \<and>
      cluster (snd (SetClusterInfoFromConfigFile deps w rmID pg)) = c1 \<and>
      (\<forall>q \<in> set pre. committed c1 (normalizedName deps rmID q))) \<and>
   (partitions (cluster w') \<noteq> [] \<and>
    SchedulerConfigLoader deps' (policyGroup (cluster w')) = Inr conf' \<and>
    Partitions conf' = pre' @ p' # post' \<and>
    updateLoop deps' rmID' pre' (cluster w') [] (\<lambda>k. False) = (Inr (u', v'), c1') \<and>
    updateLoop deps' rmID' [p'] c1' u' v' = (Inl err', c2') \<longrightarrow>
      fst (UpdateClusterInfoFromConfigFile deps' w' rmID') = ([], [], Some err') \<and>
      cluster (snd (UpdateClusterInfoFromConfigFile deps' w' rmID')) = c2' \<and>
      (\<forall>k. k \<noteq> normalizedName deps' rmID' p' \<longrightarrow>
           map_of (partitions c2') k = map_of (partitions c1') k) \<and>
      (\<forall>q \<in> set pre'. committed c2' (normalizedName deps' rmID' q)))"
proof (intro conjI impI)
  assume a: "partitions (cluster w) = [] \<and> SchedulerConfigLoader deps pg = Inr conf \<and>
    Partitions conf = pre @ p # post \<and>
    createLoop deps rmID pre (cluster w) [] = ((u, None), c1) \<and>
    newPartitionInfoInternal deps (normalized deps rmID p) rmID = Inl err"
  then have loop: "createLoop deps rmID (Partitions conf) (cluster w) [] = (([], Some err), c1)"
    by (simp add: createLoop_append createLoop_fail_step del: createLoop.simps)
  with a show "fst (SetClusterInfoFromConfigFile deps w rmID pg) = ([], Some err)"
    by (simp add: SetClusterInfoFromConfigFile_def ConfigContext_Set_def createPartitionInfos_def Let_def)
  from a loop show "cluster (snd (SetClusterInfoFromConfigFile deps w rmID pg)) = c1"
    by (simp add: SetClusterInfoFromConfigFile_def ConfigContext_Set_def createPartitionInfos_def Let_def)
  from a show "\<forall>q \<in> set pre. committed c1 (normalizedName deps rmID q)"
    by (blast intro: createLoop_commits)
next
  assume a: "partitions (cluster w') \<noteq> [] \<and>
    SchedulerConfigLoader deps' (policyGroup (cluster w')) = Inr conf' \<and>
    Partitions conf' = pre' @ p' # post' \<and>
    updateLoop deps' rmID' pre' (cluster w') [] (\<lambda>k. False) = (Inr (u', v'), c1') \<and>
    updateLoop deps' rmID' [p'] c1' u' v' = (Inl err', c2')"
  then have one: "updateLoop deps' rmID' [p'] c1' u' v' = (Inl err', c2')" by simp
  have step: "updateLoop deps' rmID' (p' # post') c1' u' v' = (Inl err', c2')"
    using one
    by (auto simp: Let_def split: option.splits sum.splits prod.splits)
  from a have loop: "updateLoop deps' rmID' (Partitions conf') (cluster w') [] (\<lambda>k. False) = (Inl err', c2')"
    by (simp add: updateLoop_append step del: updateLoop.simps)
  with a show "fst (UpdateClusterInfoFromConfigFile deps' w' rmID') = ([], [], Some err')"
    by (simp add: UpdateClusterInfoFromConfigFile_def ConfigContext_Set_def Let_def)
  from a loop show "cluster (snd (UpdateClusterInfoFromConfigFile deps' w' rmID')) = c2'"
    by (simp add: UpdateClusterInfoFromConfigFile_def ConfigContext_Set_def Let_def)
  show "\<forall>k. k \<noteq> normalizedName deps' rmID' p' \<longrightarrow>
           map_of (partitions c2') k = map_of (partitions c1') k"
    using updateLoop_other_keys [OF one] by simp
  show "\<forall>q \<in> set pre'. committed c2' (normalizedName deps' rmID' q)"
  proof
    fix q assume "q \<in> set pre'"
    with a have "committed c1' (normalizedName deps' rmID' q)"
      by (blast intro: updateLoop_commits)
    then show "committed c2' (normalizedName deps' rmID' q)"
      using updateLoop_committed [OF one] by simp
  qed
qed

theorem failure_keeps_earlier_commits_witness:
  "fst (SetClusterInfoFromConfigFile (exampleDeps confGoodThenBad) (exampleWorld [])
     ''rm'' ''queues'') = ([], Some sumError) \<and>
   committed (cluster (snd (SetClusterInfoFromConfigFile (exampleDeps confGoodThenBad)
     (exampleWorld []) ''rm'' ''queues''))) ''[rm]default'' \<and>
   fst (UpdateClusterInfoFromConfigFile (exampleDeps confNewThenBad)
     (exampleWorld [(''[rm]default'', Some defaultPart)]) ''rm'') = ([], [], Some sumError) \<and>
   committed (cluster (snd (UpdateClusterInfoFromConfigFile (exampleDeps confNewThenBad)
     (exampleWorld [(''[rm]default'', Some defaultPart)]) ''rm''))) ''[rm]extra''"
proof -
  have h1: "partitions (cluster (exampleWorld [])) = [] \<and>
      SchedulerConfigLoader (exampleDeps confGoodThenBad) ''queues'' = Inr confGoodThenBad \<and>
      Partitions confGoodThenBad =
        [exampleEntry ''default'' goodQueues] @ exampleEntry ''extra'' badQueues # [] \<and>
      createLoop (exampleDeps confGoodThenBad) ''rm'' [exampleEntry ''default'' goodQueues]
        (cluster (exampleWorld [])) [] =
        (([defaultPart], None),
         \<lparr>partitions = [(''[rm]default'', Some defaultPart)], policyGroup = ''queues''\<rparr>) \<and>
      newPartitionInfoInternal (exampleDeps confGoodThenBad)
        (normalized (exampleDeps confGoodThenBad) ''rm'' (exampleEntry ''extra'' badQueues)) ''rm'' =
        Inl sumError"
    using example_prefix_create
    by (simp add: exampleWorld_def exampleDeps_simps confGoodThenBad_def newInternal_bad
        normalized_def exampleEntry_def)
  have h2: "partitions (cluster (exampleWorld [(''[rm]default'', Some defaultPart)])) \<noteq> [] \<and>
      SchedulerConfigLoader (exampleDeps confNewThenBad)
        (policyGroup (cluster (exampleWorld [(''[rm]default'', Some defaultPart)]))) =
        Inr confNewThenBad \<and>
      Partitions confNewThenBad =
        [exampleEntry ''extra'' goodQueues] @ exampleEntry ''default'' badQueues # [] \<and>
      updateLoop (exampleDeps confNewThenBad) ''rm'' [exampleEntry ''extra'' goodQueues]
        (cluster (exampleWorld [(''[rm]default'', Some defaultPart)])) [] (\<lambda>k. False) =
        (Inr ([extraPart], (\<lambda>k. False)(''[rm]extra'' := True)),
         \<lparr>partitions = [(''[rm]default'', Some defaultPart), (''[rm]extra'', Some extraPart)],
           policyGroup = ''queues''\<rparr>) \<and>
      updateLoop (exampleDeps confNewThenBad) ''rm'' [exampleEntry ''default'' badQueues]
        \<lparr>partitions = [(''[rm]default'', Some defaultPart), (''[rm]extra'', Some extraPart)],
          policyGroup = ''queues''\<rparr>
        [extraPart] ((\<lambda>k. False)(''[rm]extra'' := True)) =
        (Inl sumError,
         \<lparr>partitions = [(''[rm]default'', Some defaultPart), (''[rm]extra'', Some extraPart)],
           policyGroup = ''queues''\<rparr>)"
    using example_prefix_update
    by (simp add: exampleWorld_def exampleDeps_simps confNewThenBad_def newInternal_bad
        exampleEntry_def)
  from failure_keeps_earlier_commits [of "exampleWorld []" "exampleDeps confGoodThenBad"
      "''queues''" confGoodThenBad "[exampleEntry ''default'' goodQueues]"
      "exampleEntry ''extra'' badQueues" "[]" "''rm''" "[defaultPart]"
      "\<lparr>partitions = [(''[rm]default'', Some defaultPart)], policyGroup = ''queues''\<rparr>"
      sumError
      "exampleWorld [(''[rm]default'', Some defaultPart)]" "exampleDeps confNewThenBad"
      confNewThenBad "[exampleEntry ''extra'' goodQueues]" "exampleEntry ''default'' badQueues"
      "[]" "''rm''" "[extraPart]" "(\<lambda>k. False)(''[rm]extra'' := True)"
      "\<lparr>partitions = [(''[rm]default'', Some defaultPart), (''[rm]extra'', Some extraPart)],
        policyGroup = ''queues''\<rparr>"
      sumError
      "\<lparr>partitions = [(''[rm]default'', Some defaultPart), (''[rm]extra'', Some extraPart)],
        policyGroup = ''queues''\<rparr>"]
    h1 h2
  show ?thesis
    by (simp add: normalizedName_def exampleDeps_simps exampleEntry_def)
qed

text \<open>
  The claim C5 as it is written fails in its last part: a bootstrap with the valid entry
  \<open>default\<close> followed by an entry that fails the check returns the error with an empty
  slice, although \<open>[rm]default\<close> is committed; likewise an update that adds \<open>extra\<close> and
  then fails returns two empty slices.
\<close>

theorem partial_results_dropped_counterexample:
  "fst (SetClusterInfoFromConfigFile (exampleDeps confGoodThenBad) (exampleWorld [])
     ''rm'' ''queues'') = ([], Some sumError) \<and>
   map_of (partitions (cluster (snd (SetClusterInfoFromConfigFile (exampleDeps confGoodThenBad)
     (exampleWorld []) ''rm'' ''queues'')))) ''[rm]default'' = Some (Some defaultPart) \<and>
   fst (UpdateClusterInfoFromConfigFile (exampleDeps confNewThenBad)
     (exampleWorld [(''[rm]default'', Some defaultPart)]) ''rm'') = ([], [], Some sumError) \<and>
   map_of (partitions (cluster (snd (UpdateClusterInfoFromConfigFile (exampleDeps confNewThenBad)
     (exampleWorld [(''[rm]default'', Some defaultPart)]) ''rm'')))) ''[rm]extra'' =
     Some (Some extraPart)"
  by (simp add: set_good_then_bad update_new_then_bad)

section \<open>Partitions that are no longer configured\<close>

text \<open>
  C8.  Take an update that succeeds, and a partition that the map held before the call
  under its own name, a name that is not the normalized name of any entry of the new
  configuration.  After the call the map still holds that partition under that name,
  now in the state PENDING_REMOVAL and otherwise unchanged, and the partition is in the
  returned slice of deleted partitions.  Marking is idempotent: a partition that is
  already in that state is left as it is.
\<close>

theorem absent_partition_marked:
  assumes "UpdateClusterInfoFromConfigFile deps w rmID = ((updated, deleted, None), w')"
    and "SchedulerConfigLoader deps (policyGroup (cluster w)) = Inr conf"
    and "map_of (partitions (cluster w)) k = Some (Some part)"
    and "pName part = k"
    and "k \<notin> normalizedName deps rmID ` set (Partitions conf)"
  shows "map_of (partitions (cluster w')) k = Some (Some (markPartitionForRemoval part)) \<and>
         state (markPartitionForRemoval part) = PendingRemoval \<and>
         markPartitionForRemoval part \<in> set deleted \<and>
         markPartitionForRemoval (markPartitionForRemoval part) = markPartitionForRemoval part \<and>
         (state part = PendingRemoval \<longrightarrow> markPartitionForRemoval part = part)"
proof -
  from assms(1) have nonempty: "partitions (cluster w) \<noteq> []"
    by (auto simp: UpdateClusterInfoFromConfigFile_def ConfigContext_Set_def split: if_splits)
  from assms(1,2) nonempty obtain u v c1 parts where
    loop: "updateLoop deps rmID (Partitions conf) (cluster w) [] (\<lambda>k. False) = (Inr (u, v), c1)"
    and mark: "markLoop v (partitions c1) [] = (Inr deleted, parts)"
    and w': "cluster w' = c1\<lparr>partitions := parts\<rparr>"
    by (auto simp: UpdateClusterInfoFromConfigFile_def ConfigContext_Set_def Let_def
        split: prod.splits sum.splits)
  have v: "v = (\<lambda>k. k \<in> normalizedName deps rmID ` set (Partitions conf))"
    using updateLoop_visited [OF loop] by simp
  have kept: "map_of (partitions c1) k = Some (Some part)"
    using updateLoop_other_keys [OF loop assms(5)] assms(3) by simp
  have notv: "\<not> v (pName part)"
    using v assms(4,5) by simp
  have "map_of parts k = Some (Some (markPartitionForRemoval part))"
    using markLoop_map_of [OF mark, of k] kept notv by simp
  moreover have "markPartitionForRemoval part \<in> set deleted"
    using markLoop_marks [OF mark kept notv] .
  moreover have "state (markPartitionForRemoval part) = PendingRemoval"
    by (simp add: markPartitionForRemoval_def)
  ultimately show ?thesis
    using w' by (simp add: mark_marked)
qed

theorem absent_partition_marked_witness:
  "map_of (partitions (cluster
       (exampleWorld [(''[rm]default'', Some defaultPart), (''[rm]old'', Some oldPart)])))
     ''[rm]old'' = Some (Some oldPart) \<and>
   ''[rm]old'' \<notin> normalizedName (exampleDeps confDefault) ''rm'' ` set (Partitions confDefault) \<and>
   map_of (partitions (cluster (snd (UpdateClusterInfoFromConfigFile (exampleDeps confDefault)
       (exampleWorld [(''[rm]default'', Some defaultPart), (''[rm]old'', Some oldPart)]) ''rm''))))
     ''[rm]old'' = Some (Some (markPartitionForRemoval oldPart)) \<and>
   state (markPartitionForRemoval oldPart) = PendingRemoval \<and>
   markPartitionForRemoval oldPart \<in> set [markPartitionForRemoval oldPart] \<and>
   map_of (partitions (cluster (snd (UpdateClusterInfoFromConfigFile (exampleDeps confDefault)
       \<lparr>cluster = \<lparr>partitions = [(''[rm]default'', Some defaultPart),
                                  (''[rm]old'', Some (markPartitionForRemoval oldPart))],
                    policyGroup = ''queues''\<rparr>,
         ConfigContext = [''queues'' \<mapsto> confDefault], loaderCalls = [''queues'']\<rparr> ''rm''))))
     ''[rm]old'' = Some (Some (markPartitionForRemoval oldPart))"
proof -
  have stored: "map_of (partitions (cluster
       (exampleWorld [(''[rm]default'', Some defaultPart), (''[rm]old'', Some oldPart)])))
     ''[rm]old'' = Some (Some oldPart)"
    by (simp add: exampleWorld_def)
  have name: "pName oldPart = ''[rm]old''"
    by (simp add: oldPart_def examplePartition_def)
  have absent: "''[rm]old'' \<notin>
      normalizedName (exampleDeps confDefault) ''rm'' ` set (Partitions confDefault)"
    by (simp add: confDefault_def example_simps)
  have loaded: "SchedulerConfigLoader (exampleDeps confDefault)
      (policyGroup (cluster
        (exampleWorld [(''[rm]default'', Some defaultPart), (''[rm]old'', Some oldPart)]))) =
      Inr confDefault"
    by (simp add: exampleDeps_simps)
  have loaded': "SchedulerConfigLoader (exampleDeps confDefault)
      (policyGroup (cluster
        \<lparr>cluster = \<lparr>partitions = [(''[rm]default'', Some defaultPart),
                                   (''[rm]old'', Some (markPartitionForRemoval oldPart))],
                     policyGroup = ''queues''\<rparr>,
          ConfigContext = [''queues'' \<mapsto> confDefault], loaderCalls = [''queues'']\<rparr>)) =
      Inr confDefault"
    by (simp add: exampleDeps_simps)
  have stored': "map_of (partitions (cluster
        \<lparr>cluster = \<lparr>partitions = [(''[rm]default'', Some defaultPart),
                                   (''[rm]old'', Some (markPartitionForRemoval oldPart))],
                     policyGroup = ''queues''\<rparr>,
          ConfigContext = [''queues'' \<mapsto> confDefault], loaderCalls = [''queues'']\<rparr>))
      ''[rm]old'' = Some (Some (markPartitionForRemoval oldPart))"
    by simp
  have name': "pName (markPartitionForRemoval oldPart) = ''[rm]old''"
    using name by simp
  have marked: "state (markPartitionForRemoval oldPart) = PendingRemoval"
    by (simp add: markPartitionForRemoval_def)
  from absent_partition_marked [OF update_default_first loaded stored name absent]
    absent_partition_marked [OF update_default_second loaded' stored' name' absent]
    stored absent update_default_first update_default_second marked
  show ?thesis by simp
qed

section \<open>The same configuration applied twice\<close>




end
